theory Spec2Isabelle
  imports Main "HOL-Library.Product_Lexorder"
begin

section \<open>The birthday store (database.js)\<close>

text \<open>
  The store is a SQLite file with three tables. A table is modelled as the list of its
  rows in insertion order. \<^verbatim>\<open>CURRENT_TIMESTAMP\<close> is a parameter \<open>now\<close> of every statement
  that reads it: a pair of the calendar day (UTC, counted in days) and the second of that
  day; pairs are ordered lexicographically, as the text \<^verbatim>\<open>YYYY-MM-DD HH:MM:SS\<close> is.
  \<^verbatim>\<open>DATE(created_at)\<close> is the day component. Each prepared statement is modelled by what its
  SQL text means on tables that have the declared columns, keys and constraints; text
  parameters are strings, and a parameter that may be null is an option.
\<close>

type_synonym timestamp = "nat \<times> nat"

definition DATE :: "timestamp \<Rightarrow> nat" where
  "DATE t = fst t"

datatype error =
    TypeError string
  | RangeError string
  | SqliteError string
  | ApiError string

text \<open>Table \<^verbatim>\<open>birthdays\<close>: \<^verbatim>\<open>user_id TEXT PRIMARY KEY\<close>.\<close>

record birthday =
  user_id :: string
  birth_date :: string
  created_at :: timestamp
  updated_at :: timestamp
  notification_sent :: bool
  last_notification_date :: "nat option"

text \<open>
  Tables \<^verbatim>\<open>description_messages\<close> and \<^verbatim>\<open>birthday_messages\<close>: the second has the columns of
  the first and \<^verbatim>\<open>media_url\<close>.
\<close>

record description_message =
  row_id :: nat
  celebrant_id :: string
  sender_id :: string
  sender_name :: string
  message :: string
  msg_created_at :: timestamp
  sent_in_thread :: bool

record birthday_message = description_message +
  media_url :: "string option"

record database =
  birthdays :: "birthday list"
  birthday_messages :: "birthday_message list"
  description_messages :: "description_message list"
  seq_birthday_messages :: nat
  seq_description_messages :: nat

text \<open>
  \<^verbatim>\<open>UNIQUE(celebrant_id, sender_id, message, DATE(created_at))\<close>, on both message tables.
\<close>

definition unique_key :: "'a description_message_scheme \<Rightarrow> string \<times> string \<times> string \<times> nat" where
  "unique_key r = (celebrant_id r, sender_id r, message r, DATE (msg_created_at r))"

definition placeholder_date :: string where
  "placeholder_date = ''1900-01-01''"

definition COALESCE :: "string option \<Rightarrow> string \<Rightarrow> string" where
  "COALESCE v d = (case v of None \<Rightarrow> d | Some x \<Rightarrow> x)"

text \<open>
  \<^verbatim>\<open>insertBirthday\<close>: \<^verbatim>\<open>INSERT OR REPLACE INTO birthdays (user_id, birth_date, updated_at,
  notification_sent, last_notification_date) VALUES (?, COALESCE(?, '1900-01-01'),
  CURRENT_TIMESTAMP, FALSE, NULL)\<close>. \<^verbatim>\<open>OR REPLACE\<close> deletes the rows that conflict on the
  primary key and inserts the new row; \<^verbatim>\<open>created_at\<close> takes its default. The foreign keys of
  the message tables have no \<^verbatim>\<open>ON DELETE\<close> action and are checked when the statement ends,
  where the parent key is present again, so the statement has no error result. It returns
  the number of rows changed and the new store, as \<^verbatim>\<open>run\<close> does.
\<close>

definition insertBirthday :: "string \<Rightarrow> string option \<Rightarrow> timestamp \<Rightarrow> database \<Rightarrow> nat \<times> database" where
  "insertBirthday uid date now d =
     (1, d\<lparr>birthdays :=
            filter (\<lambda>b. user_id b \<noteq> uid) (birthdays d) @
            [\<lparr>user_id = uid, birth_date = COALESCE date placeholder_date,
              created_at = now, updated_at = now,
              notification_sent = False, last_notification_date = None\<rparr>]\<rparr>)"

text \<open>\<^verbatim>\<open>getBirthday\<close>: \<^verbatim>\<open>SELECT * FROM birthdays WHERE user_id = ?\<close>, read with \<^verbatim>\<open>get\<close> (the
  first row, or undefined).\<close>

definition getBirthday :: "string \<Rightarrow> database \<Rightarrow> birthday option" where
  "getBirthday uid d = find (\<lambda>b. user_id b = uid) (birthdays d)"

definition getAllBirthdays :: "database \<Rightarrow> birthday list" where
  "getAllBirthdays d = birthdays d"

text \<open>\<^verbatim>\<open>updateLastNotificationDate\<close>: \<^verbatim>\<open>UPDATE birthdays SET last_notification_date =
  DATE('now') WHERE user_id = ?\<close>.\<close>

definition updateLastNotificationDate :: "string \<Rightarrow> timestamp \<Rightarrow> database \<Rightarrow> nat \<times> database" where
  "updateLastNotificationDate uid now d =
     (length (filter (\<lambda>b. user_id b = uid) (birthdays d)),
      d\<lparr>birthdays :=
          map (\<lambda>b. if user_id b = uid then b\<lparr>last_notification_date := Some (DATE now)\<rparr> else b)
            (birthdays d)\<rparr>)"

text \<open>\<^verbatim>\<open>checkUserExists\<close>: \<^verbatim>\<open>SELECT COUNT(*) as count FROM birthdays WHERE user_id = ?\<close>.\<close>

definition checkUserExists :: "string \<Rightarrow> database \<Rightarrow> nat" where
  "checkUserExists uid d = length (filter (\<lambda>b. user_id b = uid) (birthdays d))"

text \<open>
  \<^verbatim>\<open>insertBirthdayMessage\<close>: \<^verbatim>\<open>INSERT OR IGNORE INTO birthday_messages (celebrant_id, sender_id,
  sender_name, message, media_url) VALUES (?, ?, ?, ?, ?)\<close>. A row that conflicts with the
  uniqueness constraint is skipped and the statement changes zero rows. \<^verbatim>\<open>OR IGNORE\<close> does
  not cover the foreign key (\<^verbatim>\<open>foreign_keys = ON\<close>): a new row whose celebrant has no
  birthday record aborts the statement.
\<close>

definition insertBirthdayMessage ::
  "string \<Rightarrow> string \<Rightarrow> string \<Rightarrow> string \<Rightarrow> string option \<Rightarrow> timestamp \<Rightarrow> database
     \<Rightarrow> error + nat \<times> database" where
  "insertBirthdayMessage c s n m u now d =
     (if (c, s, m, DATE now) \<in> set (map unique_key (birthday_messages d)) then Inr (0, d)
      else if c \<notin> set (map user_id (birthdays d))
        then Inl (SqliteError ''FOREIGN KEY constraint failed'')
      else Inr (1, d\<lparr>birthday_messages := birthday_messages d @
                  [\<lparr>row_id = Suc (seq_birthday_messages d), celebrant_id = c, sender_id = s,
                    sender_name = n, message = m, msg_created_at = now,
                    sent_in_thread = False, media_url = u\<rparr>],
                seq_birthday_messages := Suc (seq_birthday_messages d)\<rparr>))"

text \<open>\<^verbatim>\<open>insertDescriptionMessage\<close>: the same statement on \<^verbatim>\<open>description_messages\<close>, without
  \<^verbatim>\<open>media_url\<close>.\<close>

definition insertDescriptionMessage ::
  "string \<Rightarrow> string \<Rightarrow> string \<Rightarrow> string \<Rightarrow> timestamp \<Rightarrow> database \<Rightarrow> error + nat \<times> database" where
  "insertDescriptionMessage c s n m now d =
     (if (c, s, m, DATE now) \<in> set (map unique_key (description_messages d)) then Inr (0, d)
      else if c \<notin> set (map user_id (birthdays d))
        then Inl (SqliteError ''FOREIGN KEY constraint failed'')
      else Inr (1, d\<lparr>description_messages := description_messages d @
                  [\<lparr>row_id = Suc (seq_description_messages d), celebrant_id = c, sender_id = s,
                    sender_name = n, message = m, msg_created_at = now,
                    sent_in_thread = False\<rparr>],
                seq_description_messages := Suc (seq_description_messages d)\<rparr>))"

text \<open>
  The two \<^verbatim>\<open>SELECT ... WHERE celebrant_id = ? AND sent_in_thread = FALSE ORDER BY created_at
  ASC\<close> statements, the count and the two \<^verbatim>\<open>UPDATE ... SET sent_in_thread = TRUE WHERE
  celebrant_id = ? AND sent_in_thread = FALSE\<close> statements. Rows with equal \<^verbatim>\<open>created_at\<close>
  keep their insertion order.
\<close>

definition unsent_for :: "string \<Rightarrow> 'a description_message_scheme \<Rightarrow> bool" where
  "unsent_for c r = (celebrant_id r = c \<and> sent_in_thread r = False)"

definition getBirthdayMessages :: "string \<Rightarrow> database \<Rightarrow> birthday_message list" where
  "getBirthdayMessages c d = sort_key msg_created_at (filter (unsent_for c) (birthday_messages d))"

definition getBirthdayMessageCount :: "string \<Rightarrow> database \<Rightarrow> nat" where
  "getBirthdayMessageCount c d = length (filter (unsent_for c) (birthday_messages d))"

definition markMessagesAsSent :: "string \<Rightarrow> database \<Rightarrow> nat \<times> database" where
  "markMessagesAsSent c d =
     (length (filter (unsent_for c) (birthday_messages d)),
      d\<lparr>birthday_messages :=
          map (\<lambda>r. if unsent_for c r then r\<lparr>sent_in_thread := True\<rparr> else r) (birthday_messages d)\<rparr>)"

definition getDescriptionMessages :: "string \<Rightarrow> database \<Rightarrow> description_message list" where
  "getDescriptionMessages c d =
     sort_key msg_created_at (filter (unsent_for c) (description_messages d))"

definition markDescriptionMessagesAsSent :: "string \<Rightarrow> database \<Rightarrow> nat \<times> database" where
  "markDescriptionMessagesAsSent c d =
     (length (filter (unsent_for c) (description_messages d)),
      d\<lparr>description_messages :=
          map (\<lambda>r. if unsent_for c r then r\<lparr>sent_in_thread := True\<rparr> else r)
            (description_messages d)\<rparr>)"

text \<open>
  The exported \<^verbatim>\<open>statements\<close> object: its property names, in the order of the source, each
  with the prepared statement it holds. Reading any other property yields undefined.
\<close>

datatype stmt =
    InsertBirthday | GetBirthday | GetAllBirthdays | UpdateLastNotificationDate
  | InsertBirthdayMessage | GetBirthdayMessages | GetBirthdayMessageCount | MarkMessagesAsSent
  | InsertDescriptionMessage | GetDescriptionMessages | MarkDescriptionMessagesAsSent
  | CheckUserExists

definition statements :: "(string \<times> stmt) list" where
  "statements =
     [(''insertBirthday'', InsertBirthday),
      (''getBirthday'', GetBirthday),
      (''getAllBirthdays'', GetAllBirthdays),
      (''updateLastNotificationDate'', UpdateLastNotificationDate),
      (''insertBirthdayMessage'', InsertBirthdayMessage),
      (''getBirthdayMessages'', GetBirthdayMessages),
      (''getBirthdayMessageCount'', GetBirthdayMessageCount),
      (''markMessagesAsSent'', MarkMessagesAsSent),
      (''insertDescriptionMessage'', InsertDescriptionMessage),
      (''getDescriptionMessages'', GetDescriptionMessages),
      (''markDescriptionMessagesAsSent'', MarkDescriptionMessagesAsSent),
      (''checkUserExists'', CheckUserExists)]"

text \<open>
  \<^verbatim>\<open>statements.name.run(uid)\<close>: a call of \<^verbatim>\<open>run\<close> with one bound parameter on the property
  \<open>name\<close>. On undefined the property access raises a TypeError. The statements that take
  one parameter and write run; a statement that returns rows refuses \<^verbatim>\<open>run\<close>; a statement
  with more parameters refuses the binding.
\<close>

fun run1 :: "stmt \<Rightarrow> string \<Rightarrow> timestamp \<Rightarrow> database \<Rightarrow> error + nat \<times> database" where
  "run1 UpdateLastNotificationDate uid now d = Inr (updateLastNotificationDate uid now d)"
| "run1 MarkMessagesAsSent uid now d = Inr (markMessagesAsSent uid d)"
| "run1 MarkDescriptionMessagesAsSent uid now d = Inr (markDescriptionMessagesAsSent uid d)"
| "run1 InsertBirthday uid now d = Inl (RangeError ''Too few parameter values were provided'')"
| "run1 InsertBirthdayMessage uid now d = Inl (RangeError ''Too few parameter values were provided'')"
| "run1 InsertDescriptionMessage uid now d =
     Inl (RangeError ''Too few parameter values were provided'')"
| "run1 q uid now d = Inl (TypeError ''This statement returns data'')"

definition run_by_name :: "string \<Rightarrow> string \<Rightarrow> timestamp \<Rightarrow> database \<Rightarrow> error + nat \<times> database" where
  "run_by_name name uid now d =
     (case map_of statements name of
        None \<Rightarrow> Inl (TypeError ''Cannot read properties of undefined (reading run)'')
      | Some q \<Rightarrow> run1 q uid now d)"

text \<open>A sequence of \<^verbatim>\<open>insertBirthday\<close> calls, each with its member, its date and its time.\<close>

definition upserts :: "(string \<times> string option \<times> timestamp) list \<Rightarrow> database \<Rightarrow> database" where
  "upserts ops d = foldl (\<lambda>s (uid, date, now). snd (insertBirthday uid date now s)) d ops"

text \<open>The date written by the last call for a member in a sequence of calls, if any.\<close>

definition last_written :: "string \<Rightarrow> (string \<times> string option \<times> timestamp) list \<Rightarrow> string option" where
  "last_written uid ops =
     (case filter (\<lambda>(u, date, now). u = uid) (rev ops) of
        [] \<Rightarrow> None
      | (u, date, now) # _ \<Rightarrow> Some (COALESCE date placeholder_date))"

definition rows_of :: "string \<Rightarrow> database \<Rightarrow> birthday list" where
  "rows_of uid d = filter (\<lambda>b. user_id b = uid) (birthdays d)"

section \<open>The chat platform, the generative service and the process state\<close>

text \<open>
  Strings are lists of 8-bit characters: a JavaScript string is modelled by its bytes, so
  \<^verbatim>\<open>trim\<close> and \<^verbatim>\<open>toLowerCase\<close> are modelled on ASCII (white space is TAB, LF, VT, FF, CR and
  SPACE; the letters \<^verbatim>\<open>A\<close> to \<^verbatim>\<open>Z\<close> have lower-case forms).
\<close>

definition nl :: string where
  "nl = [CHR 0x0A]"

definition is_space :: "char \<Rightarrow> bool" where
  "is_space ch = ((of_char ch :: nat) = 32 \<or> (9 \<le> (of_char ch :: nat) \<and> (of_char ch :: nat) \<le> 13))"

definition trim :: "string \<Rightarrow> string" where
  "trim s = rev (dropWhile is_space (rev (dropWhile is_space s)))"

definition lower_char :: "char \<Rightarrow> char" where
  "lower_char ch =
     (if 65 \<le> (of_char ch :: nat) \<and> (of_char ch :: nat) \<le> 90
      then char_of ((of_char ch :: nat) + 32) else ch)"

definition toLowerCase :: "string \<Rightarrow> string" where
  "toLowerCase s = map lower_char s"

fun join :: "string \<Rightarrow> string list \<Rightarrow> string" where
  "join sep [] = []"
| "join sep [x] = x"
| "join sep (x # y # ys) = x @ sep @ join sep (y # ys)"

text \<open>The decimal text of a number, as a template literal prints it.\<close>

fun show_nat :: "nat \<Rightarrow> string" where
  "show_nat n =
     (if n < 10 then [char_of (48 + n)]
      else show_nat (n div 10) @ [char_of (48 + n mod 10)])"

text \<open>A member of the workspace, as \<^verbatim>\<open>users.list\<close> returns it; a JavaScript value that may be
  undefined is an option.\<close>

record user_profile =
  real_name_normalized :: "string option"
  display_name_normalized :: "string option"
  first_name :: "string option"
  last_name :: "string option"

record member =
  member_id :: string
  user_name :: string
  deleted :: bool
  is_bot :: bool
  is_restricted :: bool
  is_ultra_restricted :: bool
  real_name :: "string option"
  profile :: "user_profile option"

record users_response =
  members :: "member list"
  next_cursor :: "string option"

text \<open>A message given to \<^verbatim>\<open>chat.postMessage\<close>: the channel, the thread and the text (the
  blocks repeat the text and are left out).\<close>

record post =
  channel :: string
  thread_ts :: "string option"
  post_text :: string

text \<open>
  The platform client. Each method is a function of the request and of the number of calls
  made to outside services so far, so that the same request may succeed once and fail
  later; \<open>Inl\<close> is the exception the awaited call raises. \<^verbatim>\<open>chat.postMessage\<close> returns the
  \<^verbatim>\<open>ts\<close> of the message, \<^verbatim>\<open>conversations.open\<close> its \<^verbatim>\<open>ok\<close> flag.
\<close>

record client =
  users_list :: "nat \<Rightarrow> string option \<Rightarrow> error + users_response"
  conversations_open :: "nat \<Rightarrow> string \<Rightarrow> error + bool"
  chat_postMessage :: "nat \<Rightarrow> post \<Rightarrow> error + string"

text \<open>
  \<^verbatim>\<open>anthropic.messages.create\<close>: from the prompt to the \<^verbatim>\<open>content\<close> array of the response, each
  block with its \<^verbatim>\<open>text\<close> when it has one (model, token bound and temperature are constants
  of the call).
\<close>

type_synonym anthropic = "nat \<Rightarrow> string \<Rightarrow> error + string option list"

text \<open>
  The state of the process: the store, the messages the platform accepted, the console,
  the number of calls made to outside services, and the \<^verbatim>\<open>userCache\<close> of commands.js (for
  each key the cached user, null for a negative result, and the time of the entry in
  milliseconds).
\<close>

datatype line = Log string | Failure string error

record world =
  store :: database
  posted :: "post list"
  console :: "line list"
  calls :: nat
  userCache :: "string \<rightharpoonup> member option \<times> int"

text \<open>
  An asynchronous function is a function from the state to its outcome and the state it
  leaves: \<open>Inl\<close> when it raises (the promise rejects), \<open>Inr\<close> when it returns.
\<close>

type_synonym 'a io = "world \<Rightarrow> (error + 'a) \<times> world"

definition io_return :: "'a \<Rightarrow> 'a io" where
  "io_return a w = (Inr a, w)"

definition io_throw :: "error \<Rightarrow> 'a io" where
  "io_throw e w = (Inl e, w)"

definition io_bind :: "'a io \<Rightarrow> ('a \<Rightarrow> 'b io) \<Rightarrow> 'b io" where
  "io_bind m f w = (case m w of (Inl e, w') \<Rightarrow> (Inl e, w') | (Inr a, w') \<Rightarrow> f a w')"

definition io_catch :: "'a io \<Rightarrow> (error \<Rightarrow> 'a io) \<Rightarrow> 'a io" where
  "io_catch m h w = (case m w of (Inl e, w') \<Rightarrow> h e w' | (Inr a, w') \<Rightarrow> (Inr a, w'))"

definition console_log :: "string \<Rightarrow> unit io" where
  "console_log s w = (Inr (), w\<lparr>console := console w @ [Log s]\<rparr>)"

definition console_error :: "string \<Rightarrow> error \<Rightarrow> unit io" where
  "console_error s e w = (Inr (), w\<lparr>console := console w @ [Failure s e]\<rparr>)"

definition db_read :: "(database \<Rightarrow> 'a) \<Rightarrow> 'a io" where
  "db_read q w = (Inr (q (store w)), w)"

definition db_run :: "(database \<Rightarrow> nat \<times> database) \<Rightarrow> nat io" where
  "db_run q w = (Inr (fst (q (store w))), w\<lparr>store := snd (q (store w))\<rparr>)"

definition db_try :: "(database \<Rightarrow> error + nat \<times> database) \<Rightarrow> nat io" where
  "db_try q w =
     (case q (store w) of Inl e \<Rightarrow> (Inl e, w) | Inr (k, d) \<Rightarrow> (Inr k, w\<lparr>store := d\<rparr>))"

definition call_users_list :: "client \<Rightarrow> string option \<Rightarrow> users_response io" where
  "call_users_list cl cursor w = (users_list cl (calls w) cursor, w\<lparr>calls := Suc (calls w)\<rparr>)"

definition call_conversations_open :: "client \<Rightarrow> string \<Rightarrow> bool io" where
  "call_conversations_open cl uid w =
     (conversations_open cl (calls w) uid, w\<lparr>calls := Suc (calls w)\<rparr>)"

definition call_postMessage :: "client \<Rightarrow> post \<Rightarrow> string io" where
  "call_postMessage cl p w =
     (case chat_postMessage cl (calls w) p of
        Inl e \<Rightarrow> (Inl e, w\<lparr>calls := Suc (calls w)\<rparr>)
      | Inr ts \<Rightarrow> (Inr ts, w\<lparr>posted := posted w @ [p], calls := Suc (calls w)\<rparr>))"

definition call_messages_create :: "anthropic \<Rightarrow> string \<Rightarrow> string option list io" where
  "call_messages_create an prompt w = (an (calls w) prompt, w\<lparr>calls := Suc (calls w)\<rparr>)"

text \<open>A JavaScript string used as a condition: undefined and the empty string are falsy.\<close>

definition truthy :: "string option \<Rightarrow> bool" where
  "truthy v = (case v of None \<Rightarrow> False | Some s \<Rightarrow> s \<noteq> [])"

section \<open>Collection trigger, poem generator and thread poster (birthday-service, the second
  file in commands.js)\<close>

text \<open>
  \<^verbatim>\<open>chunk(array, size)\<close>: slices of \<open>sz\<close> elements. With \<open>sz = 0\<close> and a non-empty array
  the loop of the source never ends: the result is \<open>None\<close>.
\<close>

function chunk :: "'a list \<Rightarrow> nat \<Rightarrow> 'a list list option" where
  "chunk array sz =
     (if array = [] then Some []
      else if sz = 0 then None
      else map_option ((#) (take sz array)) (chunk (drop sz array) sz))"
  by pat_completeness auto
termination
  by (relation "measure (\<lambda>(array, sz). length array)") auto

definition poem_prompt :: "string \<Rightarrow> string" where
  "poem_prompt descriptionsText =
     ''Based on these descriptions of some from their colleagues:'' @ nl @ nl @
     descriptionsText @ nl @ nl @
     ''Write a warm, personal, and fun birthday poem that incorporates these qualities and characteristics. The poem should be light-hearted and celebratory. Just return the poem and no introduction or other text. Format it with line breaks.''"

definition fallback_poem :: string where
  "fallback_poem =
     ''Here's to another year of joy and cheer,'' @ nl @
     ''With colleagues who hold you ever so dear.'' @ nl @
     ''Your presence makes our workplace bright,'' @ nl @
     ''Happy birthday, may your day be just right!''"

text \<open>
  \<^verbatim>\<open>generateBirthdayPoem(descriptions)\<close>. Inside the \<^verbatim>\<open>try\<close>: the API call, then
  \<^verbatim>\<open>response.content[0].text.trim()\<close>, which raises a TypeError when the content array is
  empty or its first block has no text. The \<^verbatim>\<open>catch\<close> logs and returns the fallback poem.
\<close>

definition generateBirthdayPoem :: "anthropic \<Rightarrow> 'a description_message_scheme list \<Rightarrow> string io" where
  "generateBirthdayPoem an descriptions =
     io_catch
       (io_bind (call_messages_create an (poem_prompt (join nl (map message descriptions))))
          (\<lambda>content.
             case content of
               [] \<Rightarrow> io_throw (TypeError ''Cannot read properties of undefined (reading text)'')
             | None # _ \<Rightarrow> io_throw (TypeError ''Cannot read properties of undefined (reading trim)'')
             | Some t # _ \<Rightarrow> io_return (trim t)))
       (\<lambda>e. io_bind (console_error ''Error generating poem with Claude:'' e)
          (\<lambda>_. io_return fallback_poem))"

text \<open>
  \<^verbatim>\<open>triggerBirthdayCollection(client, celebrantId)\<close>. The batches hold one user each, so the
  \<^verbatim>\<open>Promise.all\<close> of a batch is one send; the pause between batches changes no state. The
  function given to \<^verbatim>\<open>batch.map\<close> catches whatever its body raises.
\<close>

definition eligible :: "string \<Rightarrow> member \<Rightarrow> bool" where
  "eligible celebrantId user =
     (\<not> is_bot user \<and> \<not> deleted user \<and> \<not> is_restricted user \<and> \<not> is_ultra_restricted user \<and>
      member_id user \<noteq> celebrantId \<and> member_id user \<noteq> ''USLACKBOT'' \<and>
      user_name user \<noteq> celebrantId)"

definition send_collection :: "client \<Rightarrow> string \<Rightarrow> member \<Rightarrow> unit io" where
  "send_collection cl celebrantId user =
     io_catch
       (io_bind
          (io_catch
             (io_bind (call_conversations_open cl (member_id user))
                (\<lambda>ok. if \<not> ok
                   then io_bind (console_log (''Cannot open DM with user '' @ member_id user))
                          (\<lambda>_. io_return False)
                   else io_return True))
             (\<lambda>dmError.
                io_bind (console_error (''Error opening DM with user '' @ member_id user @ '':'') dmError)
                  (\<lambda>_. io_return False)))
          (\<lambda>opened. if \<not> opened then io_return ()
             else io_bind
               (console_log (''Sending birthday message collection to '' @ member_id user))
               (\<lambda>_. io_bind
                  (call_postMessage cl
                     \<lparr>channel = member_id user, thread_ts = None,
                      post_text = ''Birthday message collection for <@'' @ celebrantId @ ''>''\<rparr>)
                  (\<lambda>_. io_return ()))))
       (\<lambda>e. console_error
          (''Error sending birthday collection message to '' @ member_id user @ '':'') e)"

fun send_batch :: "client \<Rightarrow> string \<Rightarrow> member list \<Rightarrow> unit io" where
  "send_batch cl celebrantId [] = io_return ()"
| "send_batch cl celebrantId (user # batch) =
     io_bind (send_collection cl celebrantId user) (\<lambda>_. send_batch cl celebrantId batch)"

fun send_batches :: "client \<Rightarrow> string \<Rightarrow> member list list \<Rightarrow> unit io" where
  "send_batches cl celebrantId [] = io_return ()"
| "send_batches cl celebrantId (batch # userBatches) =
     io_bind (send_batch cl celebrantId batch) (\<lambda>_. send_batches cl celebrantId userBatches)"

definition triggerBirthdayCollection :: "client \<Rightarrow> timestamp \<Rightarrow> string \<Rightarrow> unit io" where
  "triggerBirthdayCollection cl now celebrantId =
     io_catch
       (io_bind (db_read (checkUserExists celebrantId))
          (\<lambda>count. io_bind
             (if count = 0 then db_run (insertBirthday celebrantId None now) else io_return 0)
             (\<lambda>_. io_bind (call_users_list cl None)
                (\<lambda>result.
                   let users = filter (eligible celebrantId) (members result) in
                   case chunk users 1 of
                     None \<Rightarrow> io_throw (RangeError ''chunk does not return'')
                   | Some userBatches \<Rightarrow>
                       io_bind
                         (console_log (''Attempting to send messages to '' @ show_nat (length users) @
                            '' users in '' @ show_nat (length userBatches) @ '' batches''))
                         (\<lambda>_. send_batches cl celebrantId userBatches)))))
       (\<lambda>e. console_error ''Error triggering birthday collection:'' e)"

text \<open>
  \<^verbatim>\<open>postBirthdayThread(client, celebrantId)\<close>. The whole body is inside one \<^verbatim>\<open>try\<close>: the
  announcement, then the part that reads and posts the descriptions, then the part that
  reads and posts the tribute messages. Its \<^verbatim>\<open>catch\<close> logs the error and the function
  returns.
\<close>

definition bullet :: string where
  "bullet = [CHR 0xE2, CHR 0x80, CHR 0xA2]"

definition cake :: string where
  "cake = [CHR 0xF0, CHR 0x9F, CHR 0x8E, CHR 0x82]"

definition description_lines :: "'a description_message_scheme list \<Rightarrow> string" where
  "description_lines descriptions =
     concat (map (\<lambda>desc. bullet @ '' '' @ message desc @ '' _- '' @ sender_name desc @ ''_'' @ nl @ nl)
       descriptions)"

definition message_text :: "birthday_message \<Rightarrow> string" where
  "message_text m =
     sender_name m @ '' says:'' @ nl @ message m @
     (if truthy (media_url m) then ''<'' @ COALESCE (media_url m) [] @ ''|.>'' else [])"

fun post_messages :: "client \<Rightarrow> string \<Rightarrow> string \<Rightarrow> string \<Rightarrow> birthday_message list \<Rightarrow> unit io" where
  "post_messages cl BIRTHDAY_CHANNEL celebrantId ts [] = io_return ()"
| "post_messages cl BIRTHDAY_CHANNEL celebrantId ts (m # messages) =
     io_bind
       (console_log (''Posting birthday message for '' @ celebrantId @ '' from '' @ sender_name m))
       (\<lambda>_. io_bind
          (call_postMessage cl
             \<lparr>channel = BIRTHDAY_CHANNEL, thread_ts = Some ts, post_text = message_text m\<rparr>)
          (\<lambda>_. post_messages cl BIRTHDAY_CHANNEL celebrantId ts messages))"

definition post_descriptions ::
  "client \<Rightarrow> anthropic \<Rightarrow> string \<Rightarrow> string \<Rightarrow> string \<Rightarrow> description_message list \<Rightarrow> unit io" where
  "post_descriptions cl an BIRTHDAY_CHANNEL celebrantId ts descriptions =
     io_bind (console_log (''Generating poem for '' @ celebrantId))
       (\<lambda>_. io_bind (generateBirthdayPoem an descriptions)
          (\<lambda>poem. io_bind (console_log (''Posting poem for '' @ celebrantId))
             (\<lambda>_. io_bind
                (call_postMessage cl
                   \<lparr>channel = BIRTHDAY_CHANNEL, thread_ts = Some ts,
                    post_text = ''*A special birthday poem for you:*'' @ nl @ nl @ poem @ nl @ nl @
                      '':birthday: :sparkles: :cake:''\<rparr>)
                (\<lambda>_. io_bind
                   (call_postMessage cl
                      \<lparr>channel = BIRTHDAY_CHANNEL, thread_ts = Some ts,
                       post_text = ''*Here's what your colleagues say about you:*'' @ nl @ nl @
                         description_lines descriptions\<rparr>)
                   (\<lambda>_. io_bind (db_run (markDescriptionMessagesAsSent celebrantId))
                      (\<lambda>_. io_return ()))))))"

definition announcement :: "string \<Rightarrow> string \<Rightarrow> post" where
  "announcement BIRTHDAY_CHANNEL celebrantId =
     \<lparr>channel = BIRTHDAY_CHANNEL, thread_ts = None,
      post_text = ''Happy Birthday <@'' @ celebrantId @ ''>! '' @ cake\<rparr>"

definition descriptions_stage :: "client \<Rightarrow> anthropic \<Rightarrow> string \<Rightarrow> string \<Rightarrow> string \<Rightarrow> unit io" where
  "descriptions_stage cl an BIRTHDAY_CHANNEL celebrantId ts =
     io_bind (console_log (''Getting descriptions for '' @ celebrantId))
       (\<lambda>_. io_bind (db_read (getDescriptionMessages celebrantId))
          (\<lambda>descriptions.
             if descriptions \<noteq> []
             then post_descriptions cl an BIRTHDAY_CHANNEL celebrantId ts descriptions
             else io_return ()))"

definition messages_stage :: "client \<Rightarrow> string \<Rightarrow> string \<Rightarrow> string \<Rightarrow> unit io" where
  "messages_stage cl BIRTHDAY_CHANNEL celebrantId ts =
     io_bind (console_log (''Getting birthday messages for '' @ celebrantId))
       (\<lambda>_. io_bind (db_read (getBirthdayMessages celebrantId))
          (\<lambda>messages. io_bind (post_messages cl BIRTHDAY_CHANNEL celebrantId ts messages)
             (\<lambda>_. io_bind (db_run (markMessagesAsSent celebrantId))
                (\<lambda>_. io_return ()))))"

definition postBirthdayThread :: "client \<Rightarrow> anthropic \<Rightarrow> string \<Rightarrow> string \<Rightarrow> unit io" where
  "postBirthdayThread cl an BIRTHDAY_CHANNEL celebrantId =
     io_catch
       (io_bind (call_postMessage cl (announcement BIRTHDAY_CHANNEL celebrantId))
          (\<lambda>ts. io_bind (descriptions_stage cl an BIRTHDAY_CHANNEL celebrantId ts)
             (\<lambda>_. messages_stage cl BIRTHDAY_CHANNEL celebrantId ts)))
       (\<lambda>e. console_error ''Error posting birthday thread:'' e)"

section \<open>Dates (the Date object of the scheduler)\<close>

text \<open>
  Every Date of the scheduler is at local midnight, so a Date is modelled by its local day
  number, counted from 1970-01-01 as the language standard does. The functions are those of
  the standard's date algorithms, on days instead of milliseconds: \<open>DayFromYear\<close>,
  \<open>DaysInYear\<close>, \<open>YearFromTime\<close>, \<open>MonthFromTime\<close>, \<open>DateFromTime\<close>, \<open>MakeDay\<close>. Months are
  numbered from 0. The range limit of time values is not modelled.
\<close>

definition msPerDay :: int where
  "msPerDay = 86400000"

definition DayFromYear :: "int \<Rightarrow> int" where
  "DayFromYear y = 365 * (y - 1970) + (y - 1969) div 4 - (y - 1901) div 100 + (y - 1601) div 400"

definition DaysInYear :: "int \<Rightarrow> int" where
  "DaysInYear y =
     (if y mod 4 \<noteq> 0 then 365 else if y mod 100 \<noteq> 0 then 366
      else if y mod 400 \<noteq> 0 then 365 else 366)"

definition InLeapYear :: "int \<Rightarrow> int" where
  "InLeapYear y = (if DaysInYear y = 366 then 1 else 0)"

text \<open>The largest year that starts on or before day \<open>n\<close>, searched upwards from a year that
  does.\<close>

function year_search :: "int \<Rightarrow> int \<Rightarrow> int" where
  "year_search n y = (if DayFromYear (y + 1) \<le> n then year_search n (y + 1) else y)"
  by pat_completeness auto
termination
proof (relation "measure (\<lambda>(n, y). nat (n + 1 - DayFromYear (y + 1)))")
  show "wf (measure (\<lambda>(n, y). nat (n + 1 - DayFromYear (y + 1))))"
    by simp
next
  fix n y :: int
  assume "DayFromYear (y + 1) \<le> n"
  moreover have "DayFromYear (y + 1) < DayFromYear (y + 1 + 1)"
  proof -
    have step: "365 * x + a - b + c < 365 * (x + 1) + a' - b' + c'"
      if "a \<le> a'" and "b' \<le> b + 1" and "c \<le> c'" for x a b c a' b' c' :: int
      using that by simp
    have "(y + 1 - 1969) div 4 \<le> (y + 1 + 1 - 1969) div 4"
      by (rule zdiv_mono1) simp_all
    moreover have "(y + 1 + 1 - 1901) div 100 \<le> (y + 1 - 1901 + 100) div 100"
      by (rule zdiv_mono1) simp_all
    then have "(y + 1 + 1 - 1901) div 100 \<le> (y + 1 - 1901) div 100 + 1"
      by simp
    moreover have "(y + 1 - 1601) div 400 \<le> (y + 1 + 1 - 1601) div 400"
      by (rule zdiv_mono1) simp_all
    ultimately have "365 * (y + 1 - 1970) + (y + 1 - 1969) div 4 - (y + 1 - 1901) div 100 +
        (y + 1 - 1601) div 400
      < 365 * (y + 1 - 1970 + 1) + (y + 1 + 1 - 1969) div 4 - (y + 1 + 1 - 1901) div 100 +
        (y + 1 + 1 - 1601) div 400"
      by (rule step)
    then show ?thesis
      by (simp add: DayFromYear_def)
  qed
  ultimately show "((n, y + 1), (n, y)) \<in> measure (\<lambda>(n, y). nat (n + 1 - DayFromYear (y + 1)))"
    by simp
qed

definition YearFromDay :: "int \<Rightarrow> int" where
  "YearFromDay n = year_search n (1970 + (if 0 \<le> n then n div 366 else n div 365))"

text \<open>The day within the year on which month \<open>m\<close> starts.\<close>

definition month_start :: "int \<Rightarrow> int \<Rightarrow> int" where
  "month_start leap m =
     (if m = 0 then 0 else if m = 1 then 31 else if m = 2 then 59 + leap
      else if m = 3 then 90 + leap else if m = 4 then 120 + leap
      else if m = 5 then 151 + leap else if m = 6 then 181 + leap
      else if m = 7 then 212 + leap else if m = 8 then 243 + leap
      else if m = 9 then 273 + leap else if m = 10 then 304 + leap
      else 334 + leap)"

definition MonthFromDay :: "int \<Rightarrow> int" where
  "MonthFromDay n =
     (let y = YearFromDay n; dayWithinYear = n - DayFromYear y; leap = InLeapYear y in
      if dayWithinYear < 31 then 0
      else if dayWithinYear < 59 + leap then 1
      else if dayWithinYear < 90 + leap then 2
      else if dayWithinYear < 120 + leap then 3
      else if dayWithinYear < 151 + leap then 4
      else if dayWithinYear < 181 + leap then 5
      else if dayWithinYear < 212 + leap then 6
      else if dayWithinYear < 243 + leap then 7
      else if dayWithinYear < 273 + leap then 8
      else if dayWithinYear < 304 + leap then 9
      else if dayWithinYear < 334 + leap then 10
      else 11)"

definition DateFromDay :: "int \<Rightarrow> int" where
  "DateFromDay n =
     (let y = YearFromDay n in
      n - DayFromYear y - month_start (InLeapYear y) (MonthFromDay n) + 1)"

definition MakeDay :: "int \<Rightarrow> int \<Rightarrow> int \<Rightarrow> int" where
  "MakeDay y m dt =
     (let ym = y + m div 12; mn = m mod 12 in
      DayFromYear ym + month_start (InLeapYear ym) mn + dt - 1)"

text \<open>\<^verbatim>\<open>new Date(year, monthIndex, day)\<close>: a year from 0 to 99 means 1900 + year.\<close>

definition new_Date :: "int \<Rightarrow> int \<Rightarrow> int \<Rightarrow> int" where
  "new_Date y m dt = MakeDay (if 0 \<le> y \<and> y \<le> 99 then 1900 + y else y) m dt"

text \<open>\<^verbatim>\<open>setFullYear(year)\<close> keeps the month and the day of the month the Date has.\<close>

definition setFullYear :: "int \<Rightarrow> int \<Rightarrow> int" where
  "setFullYear n y = MakeDay y (MonthFromDay n) (DateFromDay n)"

text \<open>
  \<^verbatim>\<open>getTime()\<close>: the time value, in milliseconds, of local midnight of a day. The parameter
  \<open>off\<close> is the offset of the process's local time from UTC on each day, in milliseconds
  (it changes with daylight saving time).
\<close>

definition getTime :: "(int \<Rightarrow> int) \<Rightarrow> int \<Rightarrow> int" where
  "getTime off n = n * msPerDay - off n"

text \<open>\<^verbatim>\<open>Math.round(x / msPerDay)\<close> for an integer \<open>x\<close>: the nearest integer, a half rounded up.
  The quotient of the source is a double; for an integer number of milliseconds in the
  range of time values the double quotient rounds to the same integer.\<close>

definition round_days :: "int \<Rightarrow> int" where
  "round_days x = (2 * x + msPerDay) div (2 * msPerDay)"

text \<open>\<^verbatim>\<open>split('-')\<close> and \<^verbatim>\<open>parseInt\<close>. \<^verbatim>\<open>parseInt\<close> skips leading white space, reads a
  sign, reads hexadecimal digits after \<^verbatim>\<open>0x\<close> and decimal digits otherwise, up to the first
  character that is no digit; with no digit the result is NaN, here \<open>None\<close>, as it is for
  an undefined argument.\<close>

fun split_on :: "char \<Rightarrow> string \<Rightarrow> string \<Rightarrow> string list" where
  "split_on sep acc [] = [rev acc]"
| "split_on sep acc (ch # s) =
     (if ch = sep then rev acc # split_on sep [] s else split_on sep (ch # acc) s)"

definition split :: "string \<Rightarrow> char \<Rightarrow> string list" where
  "split s sep = split_on sep [] s"

definition at_index :: "'a list \<Rightarrow> nat \<Rightarrow> 'a option" where
  "at_index xs i = (if i < length xs then Some (xs ! i) else None)"

definition digit_value :: "char \<Rightarrow> nat option" where
  "digit_value ch =
     (let c = (of_char ch :: nat) in
      if 48 \<le> c \<and> c \<le> 57 then Some (c - 48)
      else if 97 \<le> c \<and> c \<le> 122 then Some (c - 87)
      else if 65 \<le> c \<and> c \<le> 90 then Some (c - 55)
      else None)"

fun digits_value :: "nat \<Rightarrow> nat \<Rightarrow> string \<Rightarrow> nat" where
  "digits_value radix acc [] = acc"
| "digits_value radix acc (ch # s) =
     (case digit_value ch of
        None \<Rightarrow> acc
      | Some v \<Rightarrow> if v < radix then digits_value radix (acc * radix + v) s else acc)"

definition has_digit :: "nat \<Rightarrow> string \<Rightarrow> bool" where
  "has_digit radix s =
     (case s of [] \<Rightarrow> False
      | ch # _ \<Rightarrow> (case digit_value ch of None \<Rightarrow> False | Some v \<Rightarrow> v < radix))"

definition parse_digits :: "nat \<Rightarrow> string \<Rightarrow> int option" where
  "parse_digits radix s = (if has_digit radix s then Some (int (digits_value radix 0 s)) else None)"

definition parse_unsigned :: "string \<Rightarrow> int option" where
  "parse_unsigned s =
     (if take 2 s = ''0x'' \<or> take 2 s = ''0X'' then parse_digits 16 (drop 2 s)
      else parse_digits 10 s)"

definition parseInt :: "string option \<Rightarrow> int option" where
  "parseInt v =
     (case v of
        None \<Rightarrow> None
      | Some s \<Rightarrow>
          (case dropWhile is_space s of
             [] \<Rightarrow> None
           | ch # rest \<Rightarrow>
               if ch = CHR ''-'' then map_option uminus (parse_unsigned rest)
               else if ch = CHR ''+'' then parse_unsigned rest
               else parse_unsigned (ch # rest)))"

text \<open>
  The offset of one birthday record, from lines 83 to 98 of birthday-cron.js. \<open>today\<close> is
  the calendar date of London (year, month from 1, day), which the source reads into a Date
  and sets to midnight. A NaN result is \<open>None\<close>: an invalid Date compares false and its
  difference is NaN.
\<close>

definition diffDays :: "(int \<Rightarrow> int) \<Rightarrow> int \<times> int \<times> int \<Rightarrow> string \<Rightarrow> int option" where
  "diffDays off date birthDate =
     (case date of (ty, tm, td) \<Rightarrow>
        let today = MakeDay ty (tm - 1) td in
        case (parseInt (at_index (split birthDate CHR ''-'') 1),
              parseInt (at_index (split birthDate CHR ''-'') 0)) of
          (Some month, Some dayOfMonth) \<Rightarrow>
            let birthdayDate = new_Date ty (month - 1) dayOfMonth;
                rolled = (if getTime off birthdayDate < getTime off today
                          then setFullYear birthdayDate (ty + 1) else birthdayDate);
                diffTime = getTime off rolled - getTime off today
            in Some (round_days diffTime)
        | _ \<Rightarrow> None)"

text \<open>
  \<^verbatim>\<open>isValidDate(dateStr)\<close> of commands.js: two digits, a hyphen, two digits; the month from 1
  to 12; the day from 1 to the number of days of that month in the year 2000, which is the
  day of the month of day 0 of the next month.
\<close>

definition is_digit :: "char \<Rightarrow> bool" where
  "is_digit ch = (48 \<le> (of_char ch :: nat) \<and> (of_char ch :: nat) \<le> 57)"

definition Number2 :: "char \<Rightarrow> char \<Rightarrow> int" where
  "Number2 a b = int (10 * ((of_char a :: nat) - 48) + ((of_char b :: nat) - 48))"

definition isValidDate :: "string \<Rightarrow> bool" where
  "isValidDate dateStr =
     (case dateStr of
        [a, b, h, c, e] \<Rightarrow>
          if \<not> (is_digit a \<and> is_digit b \<and> h = CHR ''-'' \<and> is_digit c \<and> is_digit e) then False
          else
            let dayOfMonth = Number2 a b; month = Number2 c e in
            if month < 1 \<or> month > 12 then False
            else
              let daysInMonth = DateFromDay (new_Date 2000 month 0) in
              if dayOfMonth < 1 \<or> dayOfMonth > daysInMonth then False else True
      | _ \<Rightarrow> False)"

section \<open>Calendar notions of the specification\<close>

text \<open>
  These three definitions follow the words of the specification, not the source: the length
  of a month (months from 0), a calendar date that exists (months from 1), and the next
  occurrence of a day and month: the first day from today on whose month and day of the
  month are the given ones.
\<close>

definition month_length :: "int \<Rightarrow> int \<Rightarrow> int" where
  "month_length leap m =
     (if m = 1 then 28 + leap
      else if m = 3 \<or> m = 5 \<or> m = 8 \<or> m = 10 then 30 else 31)"

definition valid_date :: "int \<times> int \<times> int \<Rightarrow> bool" where
  "valid_date date =
     (case date of (y, m, d) \<Rightarrow>
        1 \<le> m \<and> m \<le> 12 \<and> 1 \<le> d \<and> d \<le> month_length (InLeapYear y) (m - 1))"

definition is_next_occurrence :: "int \<Rightarrow> int \<Rightarrow> int \<Rightarrow> int \<Rightarrow> bool" where
  "is_next_occurrence today m d n =
     (today \<le> n \<and> MonthFromDay n = m - 1 \<and> DateFromDay n = d \<and>
      (\<forall>j \<in> {today ..< n}. \<not> (MonthFromDay j = m - 1 \<and> DateFromDay j = d)))"


section \<open>The daily scheduler (birthday-cron.js)\<close>

text \<open>
  The model follows birthday-cron.js. The repository also holds an earlier form of the file,
  with a single fetch of the member list and an offset that does not roll over to the next
  year.
\<close>

text \<open>
  The pagination loop of \<^verbatim>\<open>cleanupDeactivatedUsers\<close>: at most ten fetches. The first argument
  counts the attempts that are left; at zero the loop logs and stops with what it has. A
  failed fetch is logged and raised again.
\<close>

fun fetch_all_users :: "client \<Rightarrow> nat \<Rightarrow> string option \<Rightarrow> member list \<Rightarrow> member list io" where
  "fetch_all_users cl 0 cursor allUsers =
     io_bind (console_log ''Max search attempts reached, stopping user list pagination'')
       (\<lambda>_. io_return allUsers)"
| "fetch_all_users cl (Suc attempts) cursor allUsers =
     io_bind
       (io_catch (call_users_list cl (if truthy cursor then cursor else None))
          (\<lambda>e. io_bind (console_error ''Error fetching users list:'' e) (\<lambda>_. io_throw e)))
       (\<lambda>response.
          if truthy (next_cursor response)
          then fetch_all_users cl attempts (next_cursor response) (allUsers @ members response)
          else io_return (allUsers @ members response))"

text \<open>
  The loop over the stored birthdays. For a member that is absent from the list or marked
  deleted it calls \<^verbatim>\<open>run\<close> on three properties of the \<^verbatim>\<open>statements\<close> object:
  \<^verbatim>\<open>deleteBirthdayMessagesForUser\<close>, \<^verbatim>\<open>deleteDescriptionMessagesForUser\<close>, \<^verbatim>\<open>deleteUser\<close>.
\<close>

definition stale :: "member list \<Rightarrow> birthday \<Rightarrow> bool" where
  "stale allUsers b =
     (case find (\<lambda>user. member_id user = user_id b) allUsers of
        None \<Rightarrow> True
      | Some slackUser \<Rightarrow> deleted slackUser)"

fun cleanup_loop :: "timestamp \<Rightarrow> member list \<Rightarrow> birthday list \<Rightarrow> nat \<Rightarrow> nat io" where
  "cleanup_loop now allUsers [] deletedCount = io_return deletedCount"
| "cleanup_loop now allUsers (b # bs) deletedCount =
     (if stale allUsers b
      then io_bind (db_try (run_by_name ''deleteBirthdayMessagesForUser'' (user_id b) now))
        (\<lambda>_. io_bind (db_try (run_by_name ''deleteDescriptionMessagesForUser'' (user_id b) now))
           (\<lambda>_. io_bind (db_try (run_by_name ''deleteUser'' (user_id b) now))
              (\<lambda>_. cleanup_loop now allUsers bs (Suc deletedCount))))
      else cleanup_loop now allUsers bs deletedCount)"

definition cleanupDeactivatedUsers :: "client \<Rightarrow> string \<Rightarrow> timestamp \<Rightarrow> unit io" where
  "cleanupDeactivatedUsers cl ADMIN_CHANNEL now =
     io_catch
       (io_bind (db_read getAllBirthdays)
          (\<lambda>bs. io_bind (fetch_all_users cl 10 None [])
             (\<lambda>allUsers. io_bind (cleanup_loop now allUsers bs 0)
                (\<lambda>deletedCount.
                   if deletedCount > 0
                   then io_bind
                     (call_postMessage cl
                        \<lparr>channel = ADMIN_CHANNEL, thread_ts = None,
                         post_text = show_nat deletedCount @
                           '' deactivated users cleaned up from database''\<rparr>)
                     (\<lambda>_. console_log (''Cleaned up '' @ show_nat deletedCount @
                        '' deactivated users from database''))
                   else io_return ()))))
       (\<lambda>e. console_error ''Error cleaning up deactivated users:'' e)"

text \<open>
  The body of the loop of the scheduled function, for one birthday record: the offset, then
  the collection trigger at 7, the digest for the admin channel at 1, the thread poster at
  0. \<open>date\<close> is the calendar date of London and \<open>off\<close> the local time offsets. The source
  reads the clock anew for every record; the model takes one date for the run, which is
  the same unless the run passes midnight.
\<close>

definition digest :: "string \<Rightarrow> nat \<Rightarrow> post" where
  "digest ADMIN_CHANNEL messageCount =
     \<lparr>channel = ADMIN_CHANNEL, thread_ts = None,
      post_text = show_nat messageCount @ '' messages collected for upcoming birthday''\<rparr>"

definition dispatch ::
  "client \<Rightarrow> anthropic \<Rightarrow> string \<Rightarrow> string \<Rightarrow> (int \<Rightarrow> int) \<Rightarrow> int \<times> int \<times> int \<Rightarrow> timestamp
     \<Rightarrow> birthday \<Rightarrow> unit io" where
  "dispatch cl an BIRTHDAY_CHANNEL ADMIN_CHANNEL off date now b =
     (if diffDays off date (birth_date b) = Some 7
      then io_bind (console_log (''Triggering collection for '' @ user_id b))
             (\<lambda>_. triggerBirthdayCollection cl now (user_id b))
      else if diffDays off date (birth_date b) = Some 1
      then io_bind (db_read (getBirthdayMessageCount (user_id b)))
             (\<lambda>messageCount. io_bind (call_postMessage cl (digest ADMIN_CHANNEL messageCount))
                (\<lambda>_. io_return ()))
      else if diffDays off date (birth_date b) = Some 0
      then io_bind (console_log (''Posting thread for '' @ user_id b))
             (\<lambda>_. postBirthdayThread cl an BIRTHDAY_CHANNEL (user_id b))
      else io_return ())"

fun dispatch_all ::
  "client \<Rightarrow> anthropic \<Rightarrow> string \<Rightarrow> string \<Rightarrow> (int \<Rightarrow> int) \<Rightarrow> int \<times> int \<times> int \<Rightarrow> timestamp
     \<Rightarrow> birthday list \<Rightarrow> unit io" where
  "dispatch_all cl an BIRTHDAY_CHANNEL ADMIN_CHANNEL off date now [] = io_return ()"
| "dispatch_all cl an BIRTHDAY_CHANNEL ADMIN_CHANNEL off date now (b # upcomingBirthdays) =
     io_bind (dispatch cl an BIRTHDAY_CHANNEL ADMIN_CHANNEL off date now b)
       (\<lambda>_. dispatch_all cl an BIRTHDAY_CHANNEL ADMIN_CHANNEL off date now upcomingBirthdays)"

text \<open>The function given to \<^verbatim>\<open>cron.schedule\<close>: one \<^verbatim>\<open>try\<close> around the cleanup and the whole
  loop.\<close>

definition cron_job ::
  "client \<Rightarrow> anthropic \<Rightarrow> string \<Rightarrow> string \<Rightarrow> (int \<Rightarrow> int) \<Rightarrow> int \<times> int \<times> int \<Rightarrow> timestamp
     \<Rightarrow> unit io" where
  "cron_job cl an BIRTHDAY_CHANNEL ADMIN_CHANNEL off date now =
     io_catch
       (io_bind (cleanupDeactivatedUsers cl ADMIN_CHANNEL now)
          (\<lambda>_. io_bind (db_read getAllBirthdays)
             (\<lambda>upcomingBirthdays.
                dispatch_all cl an BIRTHDAY_CHANNEL ADMIN_CHANNEL off date now upcomingBirthdays)))
       (\<lambda>e. console_error ''Error in birthday cron job:'' e)"

text \<open>The state the loop over a list of records would leave if the body were run for every
  record, whatever each run returns.\<close>

definition every_record ::
  "client \<Rightarrow> anthropic \<Rightarrow> string \<Rightarrow> string \<Rightarrow> (int \<Rightarrow> int) \<Rightarrow> int \<times> int \<times> int \<Rightarrow> timestamp
     \<Rightarrow> birthday list \<Rightarrow> world \<Rightarrow> world" where
  "every_record cl an BIRTHDAY_CHANNEL ADMIN_CHANNEL off date now bs w =
     foldl (\<lambda>s b. snd (dispatch cl an BIRTHDAY_CHANNEL ADMIN_CHANNEL off date now b s)) w bs"

section \<open>Name resolution (commands.js)\<close>

definition CACHE_DURATION :: int where
  "CACHE_DURATION = 5 * 60 * 1000"

definition cacheKey :: "string \<Rightarrow> string \<Rightarrow> string" where
  "cacheKey firstName lastName = toLowerCase firstName @ ''-'' @ toLowerCase lastName"

text \<open>\<^verbatim>\<open>v && v.trim().toLowerCase() === target\<close> for a field \<open>v\<close> that may be undefined.\<close>

definition field_is :: "string option \<Rightarrow> string \<Rightarrow> bool" where
  "field_is v target = (truthy v \<and> toLowerCase (trim (COALESCE v [])) = target)"

definition profile_field_is ::
  "(user_profile \<Rightarrow> string option) \<Rightarrow> member \<Rightarrow> string \<Rightarrow> bool" where
  "profile_field_is field m target =
     (case profile m of None \<Rightarrow> False | Some p \<Rightarrow> field_is (field p) target)"

text \<open>
  The five searches of one page of members, in the order of the source; each is tried only
  when the ones before found nobody. \<^verbatim>\<open>find\<close> takes the first member that matches; the
  searches by first name and by last name take a member only when exactly one matches.
\<close>

definition find_in_page :: "member list \<Rightarrow> string \<Rightarrow> string \<Rightarrow> member option" where
  "find_in_page memberList firstName lastName =
     (let target = toLowerCase (trim (firstName @ '' '' @ lastName));
          user = find (\<lambda>m. \<not> deleted m \<and> field_is (real_name m) target) memberList;
          user = (if user = None
                  then find (\<lambda>m. \<not> deleted m \<and> profile_field_is real_name_normalized m target)
                         memberList
                  else user);
          user = (if user = None
                  then find (\<lambda>m. \<not> deleted m \<and> profile_field_is display_name_normalized m target)
                         memberList
                  else user);
          user = (if user = None
                  then (case filter (\<lambda>m. \<not> deleted m \<and>
                                profile_field_is first_name m (toLowerCase (trim firstName)))
                              memberList of
                          [m] \<Rightarrow> Some m
                        | _ \<Rightarrow> None)
                  else user);
          user = (if user = None
                  then (case filter (\<lambda>m. \<not> deleted m \<and>
                                profile_field_is last_name m (toLowerCase (trim lastName)))
                              memberList of
                          [m] \<Rightarrow> Some m
                        | _ \<Rightarrow> None)
                  else user)
      in user)"

definition display_of :: "member \<Rightarrow> string" where
  "display_of user = (if truthy (real_name user) then COALESCE (real_name user) [] else user_name user)"

definition cache_set :: "string \<Rightarrow> member option \<Rightarrow> int \<Rightarrow> unit io" where
  "cache_set key user now w = (Inr (), w\<lparr>userCache := (userCache w)(key \<mapsto> (user, now))\<rparr>)"

text \<open>
  The search loop of \<^verbatim>\<open>findUserByName\<close>: at most ten pages; each page is searched on its own,
  and the first page on which somebody is found ends the loop. \<open>now\<close> is \<^verbatim>\<open>Date.now()\<close>.
\<close>

fun search_pages ::
  "client \<Rightarrow> string \<Rightarrow> string \<Rightarrow> int \<Rightarrow> nat \<Rightarrow> string option \<Rightarrow> member option io" where
  "search_pages cl firstName lastName now 0 cursor =
     io_bind (console_log ''Max search attempts reached, stopping search'')
       (\<lambda>_. io_return None)"
| "search_pages cl firstName lastName now (Suc attempts) cursor =
     io_bind
       (io_catch (call_users_list cl (if truthy cursor then cursor else None))
          (\<lambda>e. io_bind (console_error ''Error searching for user:'' e) (\<lambda>_. io_throw e)))
       (\<lambda>response.
          case find_in_page (members response) firstName lastName of
            Some user \<Rightarrow>
              io_bind
                (console_log (''Found user: '' @ display_of user @ '' ('' @ member_id user @ '')''))
                (\<lambda>_. io_bind (cache_set (cacheKey firstName lastName) (Some user) now)
                   (\<lambda>_. io_return (Some user)))
          | None \<Rightarrow>
              if truthy (next_cursor response)
              then search_pages cl firstName lastName now attempts (next_cursor response)
              else io_return None)"

text \<open>
  The entry of the cache that is still fresh, if there is one. A fresh entry is returned
  without a search; the line that logs it reads \<^verbatim>\<open>cached.user.real_name\<close>, which raises a
  TypeError when the cached user is null.
\<close>

definition fresh_entry :: "world \<Rightarrow> string \<Rightarrow> int \<Rightarrow> member option option" where
  "fresh_entry w key now =
     (case userCache w key of
        None \<Rightarrow> None
      | Some (user, timestamp) \<Rightarrow> if now - timestamp < CACHE_DURATION then Some user else None)"

definition findUserByName :: "client \<Rightarrow> string \<Rightarrow> string \<Rightarrow> int \<Rightarrow> member option io" where
  "findUserByName cl firstName lastName now =
     io_bind (console_log (''Searching for user: '' @ firstName @ '' '' @ lastName))
       (\<lambda>_ w.
          case fresh_entry w (cacheKey firstName lastName) now of
            Some None \<Rightarrow> io_throw (TypeError ''Cannot read properties of null (reading real_name)'') w
          | Some (Some user) \<Rightarrow>
              io_bind (console_log (''Found user in cache: '' @ display_of user))
                (\<lambda>_. io_return (Some user)) w
          | None \<Rightarrow>
              io_bind (search_pages cl firstName lastName now 10 None)
                (\<lambda>user. if user = None
                   then io_bind (cache_set (cacheKey firstName lastName) None now)
                          (\<lambda>_. io_return None)
                   else io_return user) w)"

section \<open>Name resolution as the specification words it\<close>

text \<open>
  These definitions follow the words of the specification, not the source. The candidates
  of a stage are the members that are not deleted and whose field, trimmed and in lower
  case, equals the name looked for. The first three stages succeed with their first
  candidate, the last two only with exactly one candidate; the result is that of the first
  stage that succeeds, over the whole member list.
\<close>

definition normalized :: "string \<Rightarrow> string" where
  "normalized s = toLowerCase (trim s)"

definition candidates :: "member list \<Rightarrow> (member \<Rightarrow> string option) \<Rightarrow> string \<Rightarrow> member list" where
  "candidates ms field wanted =
     filter (\<lambda>m. \<not> deleted m \<and>
                (case field m of None \<Rightarrow> False | Some v \<Rightarrow> v \<noteq> [] \<and> normalized v = normalized wanted))
       ms"

definition exact_match :: "member list \<Rightarrow> member option" where
  "exact_match cs = (case cs of [] \<Rightarrow> None | m # _ \<Rightarrow> Some m)"

definition unique_match :: "member list \<Rightarrow> member option" where
  "unique_match cs = (case cs of [m] \<Rightarrow> Some m | _ \<Rightarrow> None)"

fun first_success :: "'a option list \<Rightarrow> 'a option" where
  "first_success [] = None"
| "first_success (None # stages) = first_success stages"
| "first_success (Some m # stages) = Some m"

definition of_profile :: "(user_profile \<Rightarrow> string option) \<Rightarrow> member \<Rightarrow> string option" where
  "of_profile field m = (case profile m of None \<Rightarrow> None | Some p \<Rightarrow> field p)"

definition spec_resolveByName :: "member list \<Rightarrow> string \<Rightarrow> string \<Rightarrow> member option" where
  "spec_resolveByName ms firstName lastName =
     first_success
       [exact_match (candidates ms real_name (firstName @ '' '' @ lastName)),
        exact_match (candidates ms (of_profile real_name_normalized) (firstName @ '' '' @ lastName)),
        exact_match (candidates ms (of_profile display_name_normalized) (firstName @ '' '' @ lastName)),
        unique_match (candidates ms (of_profile first_name) firstName),
        unique_match (candidates ms (of_profile last_name) lastName)]"

text \<open>The platform serves the member list as the pages \<open>pages\<close>, from its call number \<open>k\<close>
  and the cursor \<open>cursor\<close> on: each page but the last comes with a cursor to the next.\<close>

fun serves :: "client \<Rightarrow> nat \<Rightarrow> string option \<Rightarrow> member list list \<Rightarrow> bool" where
  "serves cl k cursor [] = False"
| "serves cl k cursor (p # ps) =
     (case users_list cl k cursor of
        Inl e \<Rightarrow> False
      | Inr response \<Rightarrow>
          members response = p \<and>
          (if ps = [] then \<not> truthy (next_cursor response)
           else truthy (next_cursor response) \<and> serves cl (Suc k) (next_cursor response) ps))"

section \<open>Example inputs\<close>

definition example_store :: database where
  "example_store =
     \<lparr>birthdays =
        [\<lparr>user_id = ''U1'', birth_date = ''01-06'', created_at = (1, 0), updated_at = (1, 0),
          notification_sent = False, last_notification_date = None\<rparr>],
      birthday_messages =
        [\<lparr>row_id = 1, celebrant_id = ''U1'', sender_id = ''U2'', sender_name = ''Ann'',
          message = ''Happy birthday'', msg_created_at = (3, 10), sent_in_thread = False,
          media_url = None\<rparr>,
         \<lparr>row_id = 2, celebrant_id = ''U1'', sender_id = ''U3'', sender_name = ''Bob'',
          message = ''Congratulations'', msg_created_at = (3, 20), sent_in_thread = False,
          media_url = None\<rparr>],
      description_messages =
        [\<lparr>row_id = 1, celebrant_id = ''U1'', sender_id = ''U2'', sender_name = ''Ann'',
          message = ''Kind'', msg_created_at = (3, 10), sent_in_thread = False\<rparr>],
      seq_birthday_messages = 2, seq_description_messages = 1\<rparr>"

definition example_world :: world where
  "example_world =
     \<lparr>store = example_store, posted = [], console = [], calls = 0, userCache = Map.empty\<rparr>"

text \<open>A generative service that answers with one text block holding a single space.\<close>

definition blank_reply :: anthropic where
  "blank_reply k prompt = Inr [Some '' '']"

text \<open>A generative service that times out.\<close>

definition timed_out :: anthropic where
  "timed_out k prompt = Inl (ApiError ''timeout'')"

text \<open>A platform whose sixth call fails: in the example, the post of the second tribute.\<close>

definition flaky_client :: client where
  "flaky_client =
     \<lparr>users_list = (\<lambda>k cursor. Inr \<lparr>members = [], next_cursor = None\<rparr>),
      conversations_open = (\<lambda>k uid. Inr True),
      chat_postMessage = (\<lambda>k p. if k = 5 then Inl (ApiError ''rate_limited'') else Inr ''1717232400.000100'')\<rparr>"








text \<open>Local time offsets: a process running on UTC, and one on British time in 2024 (summer
  time from day 19813, 31 March, to day 20023, 27 October).\<close>

definition utc :: "int \<Rightarrow> int" where
  "utc n = 0"

definition british_time :: "int \<Rightarrow> int" where
  "british_time n = (if 19813 \<le> n \<and> n < 20023 then 3600000 else 0)"


text \<open>A store with two birthdays, one on 2024-06-02 and one on 2024-06-01, both members
  present on the platform, and a platform on which posting to the admin channel fails.\<close>

definition born_tomorrow :: birthday where
  "born_tomorrow =
     \<lparr>user_id = ''U1'', birth_date = ''02-06'', created_at = (1, 0), updated_at = (1, 0),
      notification_sent = False, last_notification_date = None\<rparr>"

definition born_today :: birthday where
  "born_today =
     \<lparr>user_id = ''U2'', birth_date = ''01-06'', created_at = (1, 0), updated_at = (1, 0),
      notification_sent = False, last_notification_date = None\<rparr>"

definition two_birthdays :: world where
  "two_birthdays =
     \<lparr>store =
        \<lparr>birthdays = [born_tomorrow, born_today],
         birthday_messages = [], description_messages = [],
         seq_birthday_messages = 0, seq_description_messages = 0\<rparr>,
      posted = [], console = [], calls = 0, userCache = Map.empty\<rparr>"

definition plain_member :: "string \<Rightarrow> member" where
  "plain_member uid =
     \<lparr>member_id = uid, user_name = uid, deleted = False, is_bot = False, is_restricted = False,
      is_ultra_restricted = False, real_name = None, profile = None\<rparr>"

definition admin_down :: client where
  "admin_down =
     \<lparr>users_list = (\<lambda>k cursor. Inr \<lparr>members = [plain_member ''U1'', plain_member ''U2''],
                                    next_cursor = None\<rparr>),
      conversations_open = (\<lambda>k uid. Inr True),
      chat_postMessage = (\<lambda>k p. if channel p = ''ADMIN'' then Inl (ApiError ''channel_not_found'')
                                 else Inr ''1717232400.000100'')\<rparr>"

text \<open>Two members on two pages: Jane Smith, with a profile, on the first, and Jane Doe on the
  second.\<close>

definition jane_smith :: member where
  "jane_smith =
     \<lparr>member_id = ''U7'', user_name = ''jsmith'', deleted = False, is_bot = False,
      is_restricted = False, is_ultra_restricted = False, real_name = Some ''Jane Smith'',
      profile = Some \<lparr>real_name_normalized = None, display_name_normalized = None,
                      first_name = Some ''Jane'', last_name = None\<rparr>\<rparr>"

definition jane_doe :: member where
  "jane_doe =
     \<lparr>member_id = ''U8'', user_name = ''jdoe'', deleted = False, is_bot = False,
      is_restricted = False, is_ultra_restricted = False, real_name = Some ''Jane Doe'',
      profile = None\<rparr>"

definition two_pages :: client where
  "two_pages =
     \<lparr>users_list = (\<lambda>k cursor. if cursor = None
                        then Inr \<lparr>members = [jane_smith], next_cursor = Some ''dXNlcjpVOA==''\<rparr>
                        else Inr \<lparr>members = [jane_doe], next_cursor = Some []\<rparr>),
      conversations_open = (\<lambda>k uid. Inr True),
      chat_postMessage = (\<lambda>k p. Inr ''1717232400.000100'')\<rparr>"

section \<open>Properties of the store\<close>

lemma birthdays_insertBirthday:
  "birthdays (snd (insertBirthday uid date now d)) =
     filter (\<lambda>b. user_id b \<noteq> uid) (birthdays d) @
       [\<lparr>user_id = uid, birth_date = COALESCE date placeholder_date,
         created_at = now, updated_at = now,
         notification_sent = False, last_notification_date = None\<rparr>]"
  by (simp add: insertBirthday_def)

lemma rows_of_insert_same:
  "rows_of uid (snd (insertBirthday uid date now d)) =
     [\<lparr>user_id = uid, birth_date = COALESCE date placeholder_date,
       created_at = now, updated_at = now,
       notification_sent = False, last_notification_date = None\<rparr>]"
proof -
  have "filter (\<lambda>b. user_id b = uid) (filter (\<lambda>b. user_id b \<noteq> uid) (birthdays d)) = []"
    by (induction "birthdays d" arbitrary: d) (auto simp: filter_empty_conv)
  then show ?thesis
    by (simp add: rows_of_def birthdays_insertBirthday)
qed

lemma rows_of_insert_other:
  "u \<noteq> uid \<Longrightarrow> rows_of uid (snd (insertBirthday u date now d)) = rows_of uid d"
proof -
  assume ne: "u \<noteq> uid"
  have "filter (\<lambda>b. user_id b = uid) (filter (\<lambda>b. user_id b \<noteq> u) (birthdays d)) =
        filter (\<lambda>b. user_id b = uid) (birthdays d)"
    using ne by (auto intro: filter_cong)
  then show ?thesis
    using ne by (simp add: rows_of_def birthdays_insertBirthday)
qed

lemma getBirthday_rows_of:
  "getBirthday uid d = (case rows_of uid d of [] \<Rightarrow> None | b # _ \<Rightarrow> Some b)"
proof -
  have "find P xs = (case filter P xs of [] \<Rightarrow> None | b # _ \<Rightarrow> Some b)" for P and xs :: "birthday list"
    by (induction xs) auto
  then show ?thesis
    by (simp add: getBirthday_def rows_of_def)
qed

lemma upserts_snoc:
  "upserts (ops @ [(u, date, now)]) d = snd (insertBirthday u date now (upserts ops d))"
  by (simp add: upserts_def)

lemma last_written_snoc_same:
  "last_written uid (ops @ [(uid, date, now)]) = Some (COALESCE date placeholder_date)"
  by (simp add: last_written_def)

lemma last_written_snoc_other:
  "u \<noteq> uid \<Longrightarrow> last_written uid (ops @ [(u, date, now)]) = last_written uid ops"
  by (simp add: last_written_def)

lemma rows_of_upserts:
  "last_written uid ops = Some v \<Longrightarrow>
     \<exists>b. rows_of uid (upserts ops d) = [b] \<and> birth_date b = v \<and>
         notification_sent b = False \<and> last_notification_date b = None"
proof (induction ops arbitrary: v rule: rev_induct)
  case Nil
  then show ?case by (simp add: last_written_def)
next
  case (snoc op ops)
  obtain u date now where op: "op = (u, date, now)"
    by (cases op) auto
  show ?case
  proof (cases "u = uid")
    case True
    with snoc.prems op have "v = COALESCE date placeholder_date"
      by (simp add: last_written_snoc_same)
    with True op show ?thesis
      by (simp add: upserts_snoc rows_of_insert_same)
  next
    case False
    with snoc.prems op have "last_written uid ops = Some v"
      by (simp add: last_written_snoc_other)
    from snoc.IH [OF this] False op show ?thesis
      by (simp add: upserts_snoc rows_of_insert_other)
  qed
qed

lemma unique_count:
  "distinct (map f xs) \<Longrightarrow>
     length (filter (\<lambda>r. f r = k) xs) = (if k \<in> set (map f xs) then 1 else 0)"
  by (induction xs) (auto simp: filter_empty_conv)

lemma insertBirthdayMessage_dup:
  "(c, s, m, DATE t) \<in> set (map unique_key (birthday_messages d)) \<Longrightarrow>
     insertBirthdayMessage c s n m u t d = Inr (0, d)"
  by (simp add: insertBirthdayMessage_def)

lemma insertBirthdayMessage_ok:
  "c \<in> set (map user_id (birthdays d)) \<Longrightarrow> \<exists>k d1. insertBirthdayMessage c s n m u t d = Inr (k, d1)"
  by (simp add: insertBirthdayMessage_def)

lemma insertBirthdayMessage_keys:
  assumes "insertBirthdayMessage c s n m u t d = Inr (k, d1)"
  shows "set (map unique_key (birthday_messages d1)) =
           insert (c, s, m, DATE t) (set (map unique_key (birthday_messages d)))"
    and "birthdays d1 = birthdays d"
    and "distinct (map unique_key (birthday_messages d)) \<Longrightarrow>
           distinct (map unique_key (birthday_messages d1))"
  using assms
  by (auto simp: insertBirthdayMessage_def unique_key_def split: if_splits)

lemma insertDescriptionMessage_dup:
  "(c, s, m, DATE t) \<in> set (map unique_key (description_messages d)) \<Longrightarrow>
     insertDescriptionMessage c s n m t d = Inr (0, d)"
  by (simp add: insertDescriptionMessage_def)

lemma insertDescriptionMessage_ok:
  "c \<in> set (map user_id (birthdays d)) \<Longrightarrow> \<exists>k d1. insertDescriptionMessage c s n m t d = Inr (k, d1)"
  by (simp add: insertDescriptionMessage_def)

lemma insertDescriptionMessage_keys:
  assumes "insertDescriptionMessage c s n m t d = Inr (k, d1)"
  shows "set (map unique_key (description_messages d1)) =
           insert (c, s, m, DATE t) (set (map unique_key (description_messages d)))"
    and "birthdays d1 = birthdays d"
    and "distinct (map unique_key (description_messages d)) \<Longrightarrow>
           distinct (map unique_key (description_messages d1))"
  using assms
  by (auto simp: insertDescriptionMessage_def unique_key_def split: if_splits)

lemma tribute_same_day:
  assumes uniq: "distinct (map unique_key (birthday_messages d))"
    and reg: "c \<in> set (map user_id (birthdays d))"
    and day: "DATE t1 = DATE t2"
  shows "\<exists>k d1. insertBirthdayMessage c s n m u t1 d = Inr (k, d1) \<and>
           insertBirthdayMessage c s n' m u' t2 d1 = Inr (0, d1) \<and>
           length (filter (\<lambda>r. unique_key r = (c, s, m, DATE t1)) (birthday_messages d1)) = 1"
proof -
  from insertBirthdayMessage_ok [OF reg]
  obtain k d1 where first: "insertBirthdayMessage c s n m u t1 d = Inr (k, d1)"
    by blast
  note after = insertBirthdayMessage_keys [OF first]
  have stored: "(c, s, m, DATE t2) \<in> set (map unique_key (birthday_messages d1))"
    using after(1) day by simp
  then have second: "insertBirthdayMessage c s n' m u' t2 d1 = Inr (0, d1)"
    by (rule insertBirthdayMessage_dup)
  have "length (filter (\<lambda>r. unique_key r = (c, s, m, DATE t1)) (birthday_messages d1)) = 1"
    using unique_count [OF after(3) [OF uniq], of "(c, s, m, DATE t1)"] stored day by simp
  with first second show ?thesis
    by blast
qed

lemma tribute_other_day:
  assumes uniq: "distinct (map unique_key (birthday_messages d))"
    and reg: "c \<in> set (map user_id (birthdays d))"
  shows "\<exists>k1 d1 k2 d2. insertBirthdayMessage c s n m u t1 d = Inr (k1, d1) \<and>
           insertBirthdayMessage c s n' m u' t2 d1 = Inr (k2, d2) \<and>
           length (filter (\<lambda>r. unique_key r = (c, s, m, DATE t1)) (birthday_messages d2)) = 1 \<and>
           length (filter (\<lambda>r. unique_key r = (c, s, m, DATE t2)) (birthday_messages d2)) = 1"
proof -
  from insertBirthdayMessage_ok [OF reg]
  obtain k1 d1 where first: "insertBirthdayMessage c s n m u t1 d = Inr (k1, d1)"
    by blast
  note after1 = insertBirthdayMessage_keys [OF first]
  have "c \<in> set (map user_id (birthdays d1))"
    using reg after1(2) by simp
  from insertBirthdayMessage_ok [OF this]
  obtain k2 d2 where second: "insertBirthdayMessage c s n' m u' t2 d1 = Inr (k2, d2)"
    by blast
  note after2 = insertBirthdayMessage_keys [OF second]
  have uniq2: "distinct (map unique_key (birthday_messages d2))"
    by (rule after2(3) [OF after1(3) [OF uniq]])
  have "(c, s, m, DATE t1) \<in> set (map unique_key (birthday_messages d2))"
    and "(c, s, m, DATE t2) \<in> set (map unique_key (birthday_messages d2))"
    using after1(1) after2(1) by simp_all
  then have "length (filter (\<lambda>r. unique_key r = (c, s, m, DATE t1)) (birthday_messages d2)) = 1"
    and "length (filter (\<lambda>r. unique_key r = (c, s, m, DATE t2)) (birthday_messages d2)) = 1"
    using unique_count [OF uniq2] by simp_all
  with first second show ?thesis
    by blast
qed

lemma description_same_day:
  assumes uniq: "distinct (map unique_key (description_messages d))"
    and reg: "c \<in> set (map user_id (birthdays d))"
    and day: "DATE t1 = DATE t2"
  shows "\<exists>k d1. insertDescriptionMessage c s n m t1 d = Inr (k, d1) \<and>
           insertDescriptionMessage c s n' m t2 d1 = Inr (0, d1) \<and>
           length (filter (\<lambda>r. unique_key r = (c, s, m, DATE t1)) (description_messages d1)) = 1"
proof -
  from insertDescriptionMessage_ok [OF reg]
  obtain k d1 where first: "insertDescriptionMessage c s n m t1 d = Inr (k, d1)"
    by blast
  note after = insertDescriptionMessage_keys [OF first]
  have stored: "(c, s, m, DATE t2) \<in> set (map unique_key (description_messages d1))"
    using after(1) day by simp
  then have second: "insertDescriptionMessage c s n' m t2 d1 = Inr (0, d1)"
    by (rule insertDescriptionMessage_dup)
  have "length (filter (\<lambda>r. unique_key r = (c, s, m, DATE t1)) (description_messages d1)) = 1"
    using unique_count [OF after(3) [OF uniq], of "(c, s, m, DATE t1)"] stored day by simp
  with first second show ?thesis
    by blast
qed

lemma description_other_day:
  assumes uniq: "distinct (map unique_key (description_messages d))"
    and reg: "c \<in> set (map user_id (birthdays d))"
  shows "\<exists>k1 d1 k2 d2. insertDescriptionMessage c s n m t1 d = Inr (k1, d1) \<and>
           insertDescriptionMessage c s n' m t2 d1 = Inr (k2, d2) \<and>
           length (filter (\<lambda>r. unique_key r = (c, s, m, DATE t1)) (description_messages d2)) = 1 \<and>
           length (filter (\<lambda>r. unique_key r = (c, s, m, DATE t2)) (description_messages d2)) = 1"
proof -
  from insertDescriptionMessage_ok [OF reg]
  obtain k1 d1 where first: "insertDescriptionMessage c s n m t1 d = Inr (k1, d1)"
    by blast
  note after1 = insertDescriptionMessage_keys [OF first]
  have "c \<in> set (map user_id (birthdays d1))"
    using reg after1(2) by simp
  from insertDescriptionMessage_ok [OF this]
  obtain k2 d2 where second: "insertDescriptionMessage c s n' m t2 d1 = Inr (k2, d2)"
    by blast
  note after2 = insertDescriptionMessage_keys [OF second]
  have uniq2: "distinct (map unique_key (description_messages d2))"
    by (rule after2(3) [OF after1(3) [OF uniq]])
  have "(c, s, m, DATE t1) \<in> set (map unique_key (description_messages d2))"
    and "(c, s, m, DATE t2) \<in> set (map unique_key (description_messages d2))"
    using after1(1) after2(1) by simp_all
  then have "length (filter (\<lambda>r. unique_key r = (c, s, m, DATE t1)) (description_messages d2)) = 1"
    and "length (filter (\<lambda>r. unique_key r = (c, s, m, DATE t2)) (description_messages d2)) = 1"
    using unique_count [OF uniq2] by simp_all
  with first second show ?thesis
    by blast
qed

lemma length_filter_disj:
  "(\<And>x. \<not> (P x \<and> Q x)) \<Longrightarrow>
     length (filter (\<lambda>x. P x \<or> Q x) xs) = length (filter P xs) + length (filter Q xs)"
  by (induction xs) auto

lemma two_keys_two_rows:
  assumes "length (filter (\<lambda>r. unique_key r = (c, s, m, a)) xs) = 1"
    and "length (filter (\<lambda>r. unique_key r = (c, s, m, b)) xs) = 1"
    and "a \<noteq> b"
  shows "length (filter (\<lambda>r. unique_key r = (c, s, m, a) \<or> unique_key r = (c, s, m, b)) xs) = 2"
proof -
  have "\<not> (unique_key x = (c, s, m, a) \<and> unique_key x = (c, s, m, b))" for x :: "'a description_message_scheme"
    using assms(3) by auto
  from length_filter_disj [of "\<lambda>r. unique_key r = (c, s, m, a)" "\<lambda>r. unique_key r = (c, s, m, b)", OF this]
  show ?thesis
    using assms(1,2) by simp
qed

lemma unsent_after_mark:
  "filter (unsent_for c) (map (\<lambda>r. if unsent_for c r then r\<lparr>sent_in_thread := True\<rparr> else r) xs) = []"
  by (induction xs) (auto simp: unsent_for_def)

lemma mark_twice:
  "map (\<lambda>r. if unsent_for c r then r\<lparr>sent_in_thread := True\<rparr> else r)
     (map (\<lambda>r. if unsent_for c r then r\<lparr>sent_in_thread := True\<rparr> else r) xs) =
   map (\<lambda>r. if unsent_for c r then r\<lparr>sent_in_thread := True\<rparr> else r) xs"
  by (induction xs) (auto simp: unsent_for_def)

section \<open>Claims about the store\<close>

text \<open>
  Claim C7. For every member id, \<^verbatim>\<open>upsertBirthday\<close> followed by \<^verbatim>\<open>getBirthday\<close> returns the
  last-written date; after any sequence of upserts, for any members and from any store,
  in which the member was written at least once, there is exactly one birthday row for that
  member and it carries the date of the member's last upsert (the placeholder when that
  call gave no date); the call changes one row whether or not a row existed.
\<close>

theorem upsert_then_get_last_written:
  assumes "last_written uid ops = Some v"
  shows "map_option birth_date (getBirthday uid (upserts ops d)) = Some v \<and>
         length (rows_of uid (upserts ops d)) = 1 \<and>
         fst (insertBirthday uid date now (upserts ops d)) = 1 \<and>
         map_option birth_date (getBirthday uid (snd (insertBirthday uid date now (upserts ops d)))) =
           Some (COALESCE date placeholder_date) \<and>
         length (rows_of uid (snd (insertBirthday uid date now (upserts ops d)))) = 1"
proof -
  from rows_of_upserts [OF assms, of d]
  obtain b where "rows_of uid (upserts ops d) = [b]" and "birth_date b = v"
    by blast
  then show ?thesis
    by (simp add: getBirthday_rows_of rows_of_insert_same) (simp add: insertBirthday_def)
qed

theorem upsert_then_get_last_written_witness:
  "last_written ''U1'' [(''U1'', Some ''08-06'', (10, 0)), (''U2'', None, (10, 5)),
       (''U1'', Some ''25-12'', (11, 0))] = Some ''25-12'' \<and>
   map_option birth_date (getBirthday ''U1''
     (upserts [(''U1'', Some ''08-06'', (10, 0)), (''U2'', None, (10, 5)),
        (''U1'', Some ''25-12'', (11, 0))]
        \<lparr>birthdays = [], birthday_messages = [], description_messages = [],
         seq_birthday_messages = 0, seq_description_messages = 0\<rparr>)) = Some ''25-12'' \<and>
   length (rows_of ''U1''
     (upserts [(''U1'', Some ''08-06'', (10, 0)), (''U2'', None, (10, 5)),
        (''U1'', Some ''25-12'', (11, 0))]
        \<lparr>birthdays = [], birthday_messages = [], description_messages = [],
         seq_birthday_messages = 0, seq_description_messages = 0\<rparr>)) = 1"
proof -
  have h: "last_written ''U1'' [(''U1'', Some ''08-06'', (10, 0)), (''U2'', None, (10, 5)),
       (''U1'', Some ''25-12'', (11, 0))] = Some ''25-12''"
    by (simp add: last_written_def COALESCE_def)
  from upsert_then_get_last_written [OF h] h show ?thesis
    by blast
qed

text \<open>
  Claim C10. Every \<^verbatim>\<open>upsertBirthday\<close> call, with or without a date and whatever the store
  held for the member before, leaves exactly one record for the member, with
  \<^verbatim>\<open>notification_sent\<close> false and \<^verbatim>\<open>last_notification_date\<close> null.
\<close>

theorem upsert_resets_notification:
  "\<exists>b. rows_of uid (snd (insertBirthday uid date now d)) = [b] \<and>
       getBirthday uid (snd (insertBirthday uid date now d)) = Some b \<and>
       notification_sent b = False \<and> last_notification_date b = None"
  by (simp add: getBirthday_rows_of rows_of_insert_same)

text \<open>
  Claim C8. For every celebrant and both kinds of row, the list of undelivered rows is
  empty after the rows were marked delivered, and a second consecutive marking changes zero
  rows and leaves the store as it is.
\<close>

theorem mark_then_list_empty:
  "getBirthdayMessages c (snd (markMessagesAsSent c d)) = [] \<and>
   markMessagesAsSent c (snd (markMessagesAsSent c d)) = (0, snd (markMessagesAsSent c d)) \<and>
   getDescriptionMessages c (snd (markDescriptionMessagesAsSent c d)) = [] \<and>
   markDescriptionMessagesAsSent c (snd (markDescriptionMessagesAsSent c d)) =
     (0, snd (markDescriptionMessagesAsSent c d))"
  by (simp add: getBirthdayMessages_def markMessagesAsSent_def getDescriptionMessages_def
      markDescriptionMessagesAsSent_def unsent_after_mark mark_twice)

text \<open>
  Claim C4. For every celebrant with a birthday record, every sender and every text, in a
  store whose message tables satisfy their uniqueness constraint: two submissions of the
  same tribute (or description) on one calendar day both return normally, the second
  changes zero rows and leaves the store as it is, and exactly one row with that celebrant,
  sender, text and day is stored; two submissions on different calendar days leave exactly
  two such rows, one for each day.
\<close>

theorem same_tuple_deduplicated_per_day:
  assumes "distinct (map unique_key (birthday_messages d))"
    and "distinct (map unique_key (description_messages d))"
    and "c \<in> set (map user_id (birthdays d))"
  shows "(DATE t1 = DATE t2 \<longrightarrow>
            (\<exists>k d1. insertBirthdayMessage c s n m u t1 d = Inr (k, d1) \<and>
               insertBirthdayMessage c s n' m u' t2 d1 = Inr (0, d1) \<and>
               length (filter (\<lambda>r. unique_key r = (c, s, m, DATE t1)) (birthday_messages d1)) = 1) \<and>
            (\<exists>k d1. insertDescriptionMessage c s n m t1 d = Inr (k, d1) \<and>
               insertDescriptionMessage c s n' m t2 d1 = Inr (0, d1) \<and>
               length (filter (\<lambda>r. unique_key r = (c, s, m, DATE t1)) (description_messages d1)) = 1)) \<and>
         (DATE t1 \<noteq> DATE t2 \<longrightarrow>
            (\<exists>k1 d1 k2 d2. insertBirthdayMessage c s n m u t1 d = Inr (k1, d1) \<and>
               insertBirthdayMessage c s n' m u' t2 d1 = Inr (k2, d2) \<and>
               length (filter (\<lambda>r. unique_key r = (c, s, m, DATE t1) \<or>
                                  unique_key r = (c, s, m, DATE t2)) (birthday_messages d2)) = 2) \<and>
            (\<exists>k1 d1 k2 d2. insertDescriptionMessage c s n m t1 d = Inr (k1, d1) \<and>
               insertDescriptionMessage c s n' m t2 d1 = Inr (k2, d2) \<and>
               length (filter (\<lambda>r. unique_key r = (c, s, m, DATE t1) \<or>
                                  unique_key r = (c, s, m, DATE t2)) (description_messages d2)) = 2))"
proof (intro conjI impI)
  assume "DATE t1 = DATE t2"
  then show "\<exists>k d1. insertBirthdayMessage c s n m u t1 d = Inr (k, d1) \<and>
               insertBirthdayMessage c s n' m u' t2 d1 = Inr (0, d1) \<and>
               length (filter (\<lambda>r. unique_key r = (c, s, m, DATE t1)) (birthday_messages d1)) = 1"
    by (rule tribute_same_day [OF assms(1) assms(3)])
next
  assume "DATE t1 = DATE t2"
  then show "\<exists>k d1. insertDescriptionMessage c s n m t1 d = Inr (k, d1) \<and>
               insertDescriptionMessage c s n' m t2 d1 = Inr (0, d1) \<and>
               length (filter (\<lambda>r. unique_key r = (c, s, m, DATE t1)) (description_messages d1)) = 1"
    by (rule description_same_day [OF assms(2) assms(3)])
next
  assume ne: "DATE t1 \<noteq> DATE t2"
  from tribute_other_day [OF assms(1) assms(3), of s n m u t1 n' u' t2]
  obtain k1 d1 k2 d2 where "insertBirthdayMessage c s n m u t1 d = Inr (k1, d1)"
    and "insertBirthdayMessage c s n' m u' t2 d1 = Inr (k2, d2)"
    and "length (filter (\<lambda>r. unique_key r = (c, s, m, DATE t1)) (birthday_messages d2)) = 1"
    and "length (filter (\<lambda>r. unique_key r = (c, s, m, DATE t2)) (birthday_messages d2)) = 1"
    by blast
  then show "\<exists>k1 d1 k2 d2. insertBirthdayMessage c s n m u t1 d = Inr (k1, d1) \<and>
               insertBirthdayMessage c s n' m u' t2 d1 = Inr (k2, d2) \<and>
               length (filter (\<lambda>r. unique_key r = (c, s, m, DATE t1) \<or>
                                  unique_key r = (c, s, m, DATE t2)) (birthday_messages d2)) = 2"
    using two_keys_two_rows [OF _ _ ne] by blast
next
  assume ne: "DATE t1 \<noteq> DATE t2"
  from description_other_day [OF assms(2) assms(3), of s n m t1 n' t2]
  obtain k1 d1 k2 d2 where "insertDescriptionMessage c s n m t1 d = Inr (k1, d1)"
    and "insertDescriptionMessage c s n' m t2 d1 = Inr (k2, d2)"
    and "length (filter (\<lambda>r. unique_key r = (c, s, m, DATE t1)) (description_messages d2)) = 1"
    and "length (filter (\<lambda>r. unique_key r = (c, s, m, DATE t2)) (description_messages d2)) = 1"
    by blast
  then show "\<exists>k1 d1 k2 d2. insertDescriptionMessage c s n m t1 d = Inr (k1, d1) \<and>
               insertDescriptionMessage c s n' m t2 d1 = Inr (k2, d2) \<and>
               length (filter (\<lambda>r. unique_key r = (c, s, m, DATE t1) \<or>
                                  unique_key r = (c, s, m, DATE t2)) (description_messages d2)) = 2"
    using two_keys_two_rows [OF _ _ ne] by blast
qed

theorem same_tuple_deduplicated_per_day_witness:
  "distinct (map unique_key (birthday_messages 
     \<lparr>birthdays = [\<lparr>user_id = ''U1'', birth_date = ''08-06'', created_at = (1, 0),
            updated_at = (1, 0), notification_sent = False, last_notification_date = None\<rparr>],
          birthday_messages = [], description_messages = [],
          seq_birthday_messages = 0, seq_description_messages = 0\<rparr>)) \<and>
   distinct (map unique_key (description_messages 
     \<lparr>birthdays = [\<lparr>user_id = ''U1'', birth_date = ''08-06'', created_at = (1, 0),
            updated_at = (1, 0), notification_sent = False, last_notification_date = None\<rparr>],
          birthday_messages = [], description_messages = [],
          seq_birthday_messages = 0, seq_description_messages = 0\<rparr>)) \<and>
   ''U1'' \<in> set (map user_id (birthdays 
     \<lparr>birthdays = [\<lparr>user_id = ''U1'', birth_date = ''08-06'', created_at = (1, 0),
            updated_at = (1, 0), notification_sent = False, last_notification_date = None\<rparr>],
          birthday_messages = [], description_messages = [],
          seq_birthday_messages = 0, seq_description_messages = 0\<rparr>)) \<and>
   (\<exists>k d1. insertBirthdayMessage ''U1'' ''U2'' ''Ann'' ''Happy birthday'' None (3, 10) 
     \<lparr>birthdays = [\<lparr>user_id = ''U1'', birth_date = ''08-06'', created_at = (1, 0),
            updated_at = (1, 0), notification_sent = False, last_notification_date = None\<rparr>],
          birthday_messages = [], description_messages = [],
          seq_birthday_messages = 0, seq_description_messages = 0\<rparr> = Inr (k, d1) \<and>
      insertBirthdayMessage ''U1'' ''U2'' ''Ann'' ''Happy birthday'' None (3, 900) d1 = Inr (0, d1) \<and>
      length (filter (\<lambda>r. unique_key r = (''U1'', ''U2'', ''Happy birthday'', DATE (3, 10)))
        (birthday_messages d1)) = 1) \<and>
   (\<exists>k1 d1 k2 d2. insertDescriptionMessage ''U1'' ''U2'' ''Ann'' ''Kind'' (3, 10) 
     \<lparr>birthdays = [\<lparr>user_id = ''U1'', birth_date = ''08-06'', created_at = (1, 0),
            updated_at = (1, 0), notification_sent = False, last_notification_date = None\<rparr>],
          birthday_messages = [], description_messages = [],
          seq_birthday_messages = 0, seq_description_messages = 0\<rparr> = Inr (k1, d1) \<and>
      insertDescriptionMessage ''U1'' ''U2'' ''Ann'' ''Kind'' (4, 10) d1 = Inr (k2, d2) \<and>
      length (filter (\<lambda>r. unique_key r = (''U1'', ''U2'', ''Kind'', DATE (3, 10)) \<or>
                         unique_key r = (''U1'', ''U2'', ''Kind'', DATE (4, 10)))
        (description_messages d2)) = 2)"
proof -
  let ?d = "
     \<lparr>birthdays = [\<lparr>user_id = ''U1'', birth_date = ''08-06'', created_at = (1, 0),
            updated_at = (1, 0), notification_sent = False, last_notification_date = None\<rparr>],
          birthday_messages = [], description_messages = [],
          seq_birthday_messages = 0, seq_description_messages = 0\<rparr>"
  have h1: "distinct (map unique_key (birthday_messages ?d))"
    by simp
  have h2: "distinct (map unique_key (description_messages ?d))"
    by simp
  have h3: "''U1'' \<in> set (map user_id (birthdays ?d))"
    by simp
  have same: "DATE (3, 10) = DATE (3, 900)" and other: "DATE (3, 10) \<noteq> DATE (4, 10)"
    by (simp_all add: DATE_def)
  from same_tuple_deduplicated_per_day [OF h1 h2 h3, of "(3, 10)" "(3, 900)"] same
  have a: "\<exists>k d1. insertBirthdayMessage ''U1'' ''U2'' ''Ann'' ''Happy birthday'' None (3, 10) ?d = Inr (k, d1) \<and>
      insertBirthdayMessage ''U1'' ''U2'' ''Ann'' ''Happy birthday'' None (3, 900) d1 = Inr (0, d1) \<and>
      length (filter (\<lambda>r. unique_key r = (''U1'', ''U2'', ''Happy birthday'', DATE (3, 10)))
        (birthday_messages d1)) = 1"
    by blast
  from same_tuple_deduplicated_per_day [OF h1 h2 h3, of "(3, 10)" "(4, 10)"] other
  have b: "\<exists>k1 d1 k2 d2. insertDescriptionMessage ''U1'' ''U2'' ''Ann'' ''Kind'' (3, 10) ?d = Inr (k1, d1) \<and>
      insertDescriptionMessage ''U1'' ''U2'' ''Ann'' ''Kind'' (4, 10) d1 = Inr (k2, d2) \<and>
      length (filter (\<lambda>r. unique_key r = (''U1'', ''U2'', ''Kind'', DATE (3, 10)) \<or>
                         unique_key r = (''U1'', ''U2'', ''Kind'', DATE (4, 10)))
        (description_messages d2)) = 2"
    by blast
  from h1 h2 h3 a b show ?thesis
    by blast
qed

section \<open>Properties of the poem generator and the thread poster\<close>

lemma fallback_poem_not_empty: "fallback_poem \<noteq> []"
  by (simp add: fallback_poem_def)

lemma generateBirthdayPoem_result:
  "generateBirthdayPoem an ds w =
     (case an (calls w) (poem_prompt (join nl (map message ds))) of
        Inl e \<Rightarrow> (Inr fallback_poem,
                  w\<lparr>console := console w @ [Failure ''Error generating poem with Claude:'' e],
                    calls := Suc (calls w)\<rparr>)
      | Inr [] \<Rightarrow> (Inr fallback_poem,
                  w\<lparr>console := console w @ [Failure ''Error generating poem with Claude:''
                      (TypeError ''Cannot read properties of undefined (reading text)'')],
                    calls := Suc (calls w)\<rparr>)
      | Inr (None # rest) \<Rightarrow> (Inr fallback_poem,
                  w\<lparr>console := console w @ [Failure ''Error generating poem with Claude:''
                      (TypeError ''Cannot read properties of undefined (reading trim)'')],
                    calls := Suc (calls w)\<rparr>)
      | Inr (Some t # rest) \<Rightarrow> (Inr (trim t), w\<lparr>calls := Suc (calls w)\<rparr>))"
  by (simp add: generateBirthdayPoem_def io_catch_def io_bind_def call_messages_create_def
      io_throw_def io_return_def console_error_def
      split: sum.splits list.splits option.splits)

text \<open>
  Claim C5, as stated, fails: a response whose first block holds only white space makes
  the generator return the empty string, not the fallback poem.
\<close>

theorem poem_blank_reply_counterexample:
  "fst (generateBirthdayPoem blank_reply (description_messages example_store) example_world) = Inr []"
  by (simp add: generateBirthdayPoem_result blank_reply_def trim_def is_space_def)

text \<open>
  Claim C5, amended. For every input list of descriptions the poem generator returns a
  string and never raises. It returns the fixed fallback poem, which is not empty, when the
  generative call raises (a timeout, an error response) and when the response has no content
  block or its first block has no text; otherwise it returns the trimmed text of the first
  block.
\<close>

theorem poem_never_raises:
  "fst (generateBirthdayPoem an ds w) =
     Inr (case an (calls w) (poem_prompt (join nl (map message ds))) of
            Inl e \<Rightarrow> fallback_poem
          | Inr [] \<Rightarrow> fallback_poem
          | Inr (None # rest) \<Rightarrow> fallback_poem
          | Inr (Some t # rest) \<Rightarrow> trim t) \<and>
   fallback_poem \<noteq> []"
  by (simp add: generateBirthdayPoem_result fallback_poem_not_empty
      split: sum.splits list.splits option.splits)



lemma io_catch_console_error:
  "\<exists>w'. io_catch m (console_error s) w = (Inr (), w')"
  by (cases "m w") (auto simp: io_catch_def console_error_def split: sum.splits)









lemma postBirthdayThread_returns:
  "\<exists>w'. postBirthdayThread cl an ch c w = (Inr (), w')"
  unfolding postBirthdayThread_def by (rule io_catch_console_error)



















section \<open>Properties of the date computation\<close>

lemma div_pred:
  fixes y b :: int
  assumes "0 < b"
  shows "(y - 1) div b = y div b - (if y mod b = 0 then 1 else 0)"
proof (cases "y mod b = 0")
  case True
  have "y = b * (y div b) + y mod b"
    by simp
  with True have "y - 1 = b * (y div b - 1) + (b - 1)"
    by (simp add: algebra_simps)
  from int_div_pos_eq [OF this] assms True show ?thesis
    by simp
next
  case False
  have r: "0 \<le> y mod b" "y mod b < b"
    using assms by simp_all
  have "y = b * (y div b) + y mod b"
    by simp
  then have "y - 1 = b * (y div b) + (y mod b - 1)"
    by simp
  from int_div_pos_eq [OF this] r False show ?thesis
    by simp
qed

lemma DayFromYear_alt:
  "DayFromYear y = 365 * (y - 1970) + (y - 1) div 4 - (y - 1) div 100 + (y - 1) div 400 - 477"
proof -
  have "(y - 1969) div 4 = (y - 1 + (- 492) * 4) div 4" by simp
  also have "\<dots> = (y - 1) div 4 - 492" by (simp only: div_mult_self1)
  finally have a: "(y - 1969) div 4 = (y - 1) div 4 - 492" .
  have "(y - 1901) div 100 = (y - 1 + (- 19) * 100) div 100" by simp
  also have "\<dots> = (y - 1) div 100 - 19" by (simp only: div_mult_self1)
  finally have b: "(y - 1901) div 100 = (y - 1) div 100 - 19" .
  have "(y - 1601) div 400 = (y - 1 + (- 4) * 400) div 400" by simp
  also have "\<dots> = (y - 1) div 400 - 4" by (simp only: div_mult_self1)
  finally have c: "(y - 1601) div 400 = (y - 1) div 400 - 4" .
  show ?thesis
    unfolding DayFromYear_def a b c by simp
qed

lemma mod_100_4: "y mod 100 = 0 \<Longrightarrow> y mod 4 = 0" for y :: int
proof -
  assume "y mod 100 = 0"
  then have "100 dvd y" by (simp add: mod_eq_0_iff_dvd)
  moreover have "(4::int) dvd 100" by simp
  ultimately have "4 dvd y" by (rule dvd_trans [rotated])
  then show ?thesis by (simp add: mod_eq_0_iff_dvd)
qed

lemma mod_400_100: "y mod 400 = 0 \<Longrightarrow> y mod 100 = 0" for y :: int
proof -
  assume "y mod 400 = 0"
  then have "400 dvd y" by (simp add: mod_eq_0_iff_dvd)
  moreover have "(100::int) dvd 400" by simp
  ultimately have "100 dvd y" by (rule dvd_trans [rotated])
  then show ?thesis by (simp add: mod_eq_0_iff_dvd)
qed

lemma DayFromYear_Suc: "DayFromYear (y + 1) = DayFromYear y + DaysInYear y"
proof -
  have a: "(y - 1) div 4 = y div 4 - (if y mod 4 = 0 then 1 else 0)"
    by (rule div_pred) simp
  have b: "(y - 1) div 100 = y div 100 - (if y mod 100 = 0 then 1 else 0)"
    by (rule div_pred) simp
  have c: "(y - 1) div 400 = y div 400 - (if y mod 400 = 0 then 1 else 0)"
    by (rule div_pred) simp
  have "DayFromYear (y + 1) = 365 * (y + 1 - 1970) + y div 4 - y div 100 + y div 400 - 477"
    by (simp add: DayFromYear_alt)
  moreover have "DayFromYear y =
      365 * (y - 1970) + (y div 4 - (if y mod 4 = 0 then 1 else 0))
        - (y div 100 - (if y mod 100 = 0 then 1 else 0))
        + (y div 400 - (if y mod 400 = 0 then 1 else 0)) - 477"
    by (simp only: DayFromYear_alt [of y] a b c)
  ultimately have d: "DayFromYear (y + 1) - DayFromYear y =
      365 + (if y mod 4 = 0 then 1 else 0) - (if y mod 100 = 0 then 1 else 0)
        + (if y mod 400 = 0 then 1 else 0)"
    by (simp only:) simp
  consider "y mod 4 \<noteq> 0" | "y mod 4 = 0" "y mod 100 \<noteq> 0"
    | "y mod 100 = 0" "y mod 400 \<noteq> 0" | "y mod 400 = 0"
    by fastforce
  then have "DaysInYear y =
      365 + (if y mod 4 = 0 then 1 else 0) - (if y mod 100 = 0 then 1 else 0)
        + (if y mod 400 = 0 then 1 else 0)"
  proof cases
    case 1
    then have "y mod 100 \<noteq> 0" "y mod 400 \<noteq> 0"
      using mod_100_4 [of y] mod_400_100 [of y] by auto
    with 1 show ?thesis by (simp add: DaysInYear_def)
  next
    case 2
    then have "y mod 400 \<noteq> 0"
      using mod_400_100 [of y] by auto
    with 2 show ?thesis by (simp add: DaysInYear_def)
  next
    case 3
    then have "y mod 4 = 0"
      using mod_100_4 [of y] by auto
    with 3 show ?thesis by (simp add: DaysInYear_def)
  next
    case 4
    then have "y mod 100 = 0" "y mod 4 = 0"
      using mod_100_4 [of y] mod_400_100 [of y] by auto
    with 4 show ?thesis by (simp add: DaysInYear_def)
  qed
  with d show ?thesis
    by simp
qed

lemma DaysInYear_bounds: "365 \<le> DaysInYear y" "DaysInYear y \<le> 366"
  by (simp_all add: DaysInYear_def)

lemma DayFromYear_le: "y \<le> y' \<Longrightarrow> DayFromYear y + 365 * (y' - y) \<le> DayFromYear y'"
proof (induction y' rule: int_ge_induct)
  case base
  show ?case by simp
next
  case (step i)
  then show ?case
    using DayFromYear_Suc [of i] DaysInYear_bounds(1) [of i] by (simp add: algebra_simps)
qed

lemma DayFromYear_ge: "y \<le> y' \<Longrightarrow> DayFromYear y' \<le> DayFromYear y + 366 * (y' - y)"
proof (induction y' rule: int_ge_induct)
  case base
  show ?case by simp
next
  case (step i)
  then show ?case
    using DayFromYear_Suc [of i] DaysInYear_bounds(2) [of i] by (simp add: algebra_simps)
qed

lemma DayFromYear_strict: "y < y' \<Longrightarrow> DayFromYear y < DayFromYear y'"
  using DayFromYear_le [of y y'] by simp

lemma DayFromYear_mono: "y \<le> y' \<Longrightarrow> DayFromYear y \<le> DayFromYear y'"
  using DayFromYear_le [of y y'] by simp

lemma DayFromYear_1970: "DayFromYear 1970 = 0"
  by (simp add: DayFromYear_def)

lemma year_search_correct:
  "DayFromYear y \<le> n \<Longrightarrow>
     DayFromYear (year_search n y) \<le> n \<and> n < DayFromYear (year_search n y + 1)"
proof (induction n y rule: year_search.induct)
  case (1 n y)
  show ?case
  proof (cases "DayFromYear (y + 1) \<le> n")
    case True
    from "1.IH" [OF True True] show ?thesis
      by (subst (1 2) year_search.simps) (simp add: True)
  next
    case False
    with "1.prems" show ?thesis
      by (subst (1 2) year_search.simps) simp
  qed
qed

lemma year_start_le:
  "DayFromYear (1970 + (if 0 \<le> n then n div 366 else n div 365)) \<le> n"
proof (cases "0 \<le> n")
  case True
  then have "0 \<le> n div 366"
    by (simp add: pos_imp_zdiv_nonneg_iff)
  from DayFromYear_ge [of 1970 "1970 + n div 366"] this
  have "DayFromYear (1970 + n div 366) \<le> 366 * (n div 366)"
    by (simp add: DayFromYear_1970)
  also have "\<dots> \<le> n"
    using True by (simp add: algebra_simps)
  finally show ?thesis
    using True by simp
next
  case False
  then have "n div 365 \<le> 0"
    using neg_imp_zdiv_neg_iff [of 365 n] by simp
  from DayFromYear_le [of "1970 + n div 365" 1970] this
  have "DayFromYear (1970 + n div 365) \<le> 365 * (n div 365)"
    by (simp add: DayFromYear_1970)
  also have "\<dots> \<le> n"
    by (simp add: algebra_simps)
  finally show ?thesis
    using False by simp
qed

lemma YearFromDay_bounds:
  "DayFromYear (YearFromDay n) \<le> n" "n < DayFromYear (YearFromDay n + 1)"
  using year_search_correct [OF year_start_le, of n] by (simp_all add: YearFromDay_def)

lemma YearFromDay_unique:
  assumes "DayFromYear y \<le> n" and "n < DayFromYear (y + 1)"
  shows "YearFromDay n = y"
proof (rule ccontr)
  assume ne: "YearFromDay n \<noteq> y"
  note b = YearFromDay_bounds [of n]
  show False
  proof (cases "YearFromDay n < y")
    case True
    then have "DayFromYear (YearFromDay n + 1) \<le> DayFromYear y"
      by (intro DayFromYear_mono) simp
    with b(2) assms(1) show False by simp
  next
    case False
    with ne have "DayFromYear (y + 1) \<le> DayFromYear (YearFromDay n)"
      by (intro DayFromYear_mono) simp
    with b(1) assms(2) show False by simp
  qed
qed

lemma InLeapYear_cases: "InLeapYear y = 0 \<or> InLeapYear y = 1"
  by (simp add: InLeapYear_def)

lemma DaysInYear_leap: "DaysInYear y = 365 + InLeapYear y"
  by (simp add: InLeapYear_def DaysInYear_def)

lemma month_cases:
  fixes m :: int
  assumes "0 \<le> m" "m \<le> 11"
  obtains "m = 0" | "m = 1" | "m = 2" | "m = 3" | "m = 4" | "m = 5" | "m = 6" | "m = 7"
    | "m = 8" | "m = 9" | "m = 10" | "m = 11"
proof -
  have "m = 0 \<or> m = 1 \<or> m = 2 \<or> m = 3 \<or> m = 4 \<or> m = 5 \<or> m = 6 \<or> m = 7 \<or>
        m = 8 \<or> m = 9 \<or> m = 10 \<or> m = 11"
    using assms by arith
  then show thesis
    using that by blast
qed

lemma MakeDay_simple:
  "0 \<le> m \<Longrightarrow> m \<le> 11 \<Longrightarrow>
     MakeDay y m d = DayFromYear y + month_start (InLeapYear y) m + d - 1"
  by (simp add: MakeDay_def Let_def)

lemma month_start_bounds:
  assumes "0 \<le> m" "m \<le> 11" "leap = 0 \<or> leap = 1"
  shows "0 \<le> month_start leap m"
    and "month_start leap m + month_length leap m \<le> 365 + leap"
proof -
  show "0 \<le> month_start leap m"
    using assms(3) by (auto simp: month_start_def)
  show "month_start leap m + month_length leap m \<le> 365 + leap"
    using assms(3)
    by (cases rule: month_cases [OF assms(1,2)]) (auto simp: month_start_def month_length_def)
qed

lemma MakeDay_in_year:
  assumes "0 \<le> m" "m \<le> 11" "1 \<le> d" "d \<le> month_length (InLeapYear y) m"
  shows "DayFromYear y \<le> MakeDay y m d" and "MakeDay y m d < DayFromYear (y + 1)"
  using month_start_bounds [OF assms(1,2) InLeapYear_cases [of y]] assms(3,4)
  by (simp_all add: MakeDay_simple [OF assms(1,2)] DayFromYear_Suc DaysInYear_leap)

lemma YearFromDay_MakeDay:
  assumes "0 \<le> m" "m \<le> 11" "1 \<le> d" "d \<le> month_length (InLeapYear y) m"
  shows "YearFromDay (MakeDay y m d) = y"
  by (rule YearFromDay_unique [OF MakeDay_in_year [OF assms]])

lemma MonthFromDay_MakeDay:
  assumes "0 \<le> m" "m \<le> 11" "1 \<le> d" "d \<le> month_length (InLeapYear y) m"
  shows "MonthFromDay (MakeDay y m d) = m"
proof -
  have w: "MakeDay y m d - DayFromYear y = month_start (InLeapYear y) m + d - 1"
    by (simp add: MakeDay_simple [OF assms(1,2)])
  show ?thesis
    unfolding MonthFromDay_def YearFromDay_MakeDay [OF assms] Let_def w
    using assms(3,4) InLeapYear_cases [of y]
    by (cases rule: month_cases [OF assms(1,2)]; auto simp: month_start_def month_length_def)
qed

lemma DateFromDay_MakeDay:
  assumes "0 \<le> m" "m \<le> 11" "1 \<le> d" "d \<le> month_length (InLeapYear y) m"
  shows "DateFromDay (MakeDay y m d) = d"
  unfolding DateFromDay_def Let_def YearFromDay_MakeDay [OF assms] MonthFromDay_MakeDay [OF assms]
  by (simp add: MakeDay_simple [OF assms(1,2)])

lemma MonthFromDay_range: "0 \<le> MonthFromDay n" "MonthFromDay n \<le> 11"
  by (simp_all add: MonthFromDay_def Let_def)

lemma DateFromDay_pos: "1 \<le> DateFromDay n"
proof -
  have "0 \<le> n - DayFromYear (YearFromDay n)"
    using YearFromDay_bounds(1) [of n] by simp
  then show ?thesis
    using InLeapYear_cases [of "YearFromDay n"]
    unfolding DateFromDay_def MonthFromDay_def Let_def month_start_def
    by auto
qed

lemma MakeDay_inverse: "MakeDay (YearFromDay n) (MonthFromDay n) (DateFromDay n) = n"
  by (simp add: MakeDay_simple [OF MonthFromDay_range] DateFromDay_def Let_def)

lemma setFullYear_ge: "DayFromYear y \<le> setFullYear n y"
proof -
  have "0 \<le> month_start (InLeapYear y) (MonthFromDay n)"
    by (rule month_start_bounds(1) [OF MonthFromDay_range InLeapYear_cases])
  then show ?thesis
    using DateFromDay_pos [of n]
    by (simp add: setFullYear_def MakeDay_simple [OF MonthFromDay_range])
qed

lemma getTime_less:
  assumes "\<And>a b. \<bar>off a - off b\<bar> < msPerDay div 2"
  shows "getTime off a < getTime off b \<longleftrightarrow> a < b"
proof -
  have o: "\<bar>off a - off b\<bar> < 43200000"
    using assms [of a b] by (simp add: msPerDay_def)
  show ?thesis
  proof (cases "a < b")
    case True
    then have "a * 86400000 + 86400000 \<le> b * 86400000" by simp
    with o True show ?thesis by (simp add: getTime_def msPerDay_def) 
  next
    case False
    then have "b * 86400000 \<le> a * 86400000" by simp
    moreover have "a \<noteq> b \<Longrightarrow> b * 86400000 + 86400000 \<le> a * 86400000"
      using False by simp
    ultimately show ?thesis
      using o False by (cases "a = b") (auto simp add: getTime_def msPerDay_def)
  qed
qed

lemma round_days_diff:
  assumes "\<And>a b. \<bar>off a - off b\<bar> < msPerDay div 2"
  shows "round_days (getTime off a - getTime off b) = a - b"
proof -
  have o: "\<bar>off a - off b\<bar> < 43200000"
    using assms [of a b] by (simp add: msPerDay_def)
  define r where "r = 86400000 - 2 * (off a - off b)"
  have r: "0 \<le> r" "r < 172800000"
    using o by (simp_all add: r_def)
  have "2 * (getTime off a - getTime off b) + msPerDay = 172800000 * (a - b) + r"
    by (simp add: getTime_def msPerDay_def r_def algebra_simps)
  from int_div_pos_eq [OF this r] show ?thesis
    by (simp add: round_days_def msPerDay_def)
qed

lemma digit_facts:
  assumes "is_digit a"
  shows "\<not> is_space a" "a \<noteq> CHR ''-''" "a \<noteq> CHR ''+''" "a \<noteq> CHR ''x''" "a \<noteq> CHR ''X''"
    "digit_value a = Some ((of_char a :: nat) - 48)" "(of_char a :: nat) - 48 < 10"
  using assms by (auto simp: is_digit_def is_space_def digit_value_def Let_def)

lemma parseInt_two_digits:
  assumes "is_digit a" "is_digit b"
  shows "parseInt (Some [a, b]) = Some (Number2 a b)"
  using digit_facts [OF assms(1)] digit_facts [OF assms(2)]
  by (simp add: parseInt_def parse_unsigned_def parse_digits_def has_digit_def Number2_def)

lemma split_two_fields:
  assumes "is_digit a" "is_digit b" "is_digit c" "is_digit e"
  shows "split [a, b, CHR ''-'', c, e] CHR ''-'' = [[a, b], [c, e]]"
  using digit_facts(2) [OF assms(1)] digit_facts(2) [OF assms(2)]
    digit_facts(2) [OF assms(3)] digit_facts(2) [OF assms(4)]
  by (simp add: split_def)

lemma days_in_month_2000:
  assumes "1 \<le> m" "m \<le> 12"
  shows "DateFromDay (new_Date 2000 m 0) = month_length 1 (m - 1)"
proof -
  have y: "InLeapYear 2000 = 1" "InLeapYear 2001 = 0"
    by (simp_all add: InLeapYear_def DaysInYear_def)
  have len: "1 \<le> month_length 1 (m - 1)"
    by (simp add: month_length_def)
  have "0 \<le> m - 1" "m - 1 \<le> 11"
    using assms by simp_all
  note rt = DateFromDay_MakeDay [OF this, of "month_length 1 (m - 1)" 2000]
  have "MakeDay 2000 m 0 = MakeDay 2000 (m - 1) (month_length 1 (m - 1))"
  proof (cases "m = 12")
    case True
    then show ?thesis
      by (simp add: MakeDay_def Let_def y DayFromYear_def month_start_def month_length_def)
  next
    case False
    with assms have m: "0 \<le> m" "m \<le> 11" by simp_all
    show ?thesis
      using assms
      by (cases rule: month_cases [OF m])
         (simp_all add: MakeDay_simple y month_start_def month_length_def)
  qed
  with rt len show ?thesis
    by (simp add: new_Date_def y)
qed

lemma isValidDate_parts:
  assumes "isValidDate s"
  obtains a b c e where "s = [a, b, CHR ''-'', c, e]"
    and "is_digit a" "is_digit b" "is_digit c" "is_digit e"
    and "1 \<le> Number2 c e" "Number2 c e \<le> 12"
    and "1 \<le> Number2 a b" "Number2 a b \<le> month_length 1 (Number2 c e - 1)"
proof -
  from assms obtain a b h c e where s: "s = [a, b, h, c, e]"
    by (auto simp: isValidDate_def split: list.splits)
  from assms s have d: "is_digit a" "is_digit b" "h = CHR ''-''" "is_digit c" "is_digit e"
    by (auto simp: isValidDate_def split: if_splits)
  from assms s d have m: "1 \<le> Number2 c e" "Number2 c e \<le> 12"
    by (auto simp: isValidDate_def Let_def split: if_splits)
  from assms s d m have "1 \<le> Number2 a b"
    "Number2 a b \<le> DateFromDay (new_Date 2000 (Number2 c e) 0)"
    by (auto simp: isValidDate_def Let_def split: if_splits)
  with days_in_month_2000 [OF m] s d m that show thesis
    by simp
qed

lemma digit_char:
  assumes "is_digit a" "(of_char a :: nat) - 48 = v"
  shows "a = char_of (48 + v)"
proof -
  from assms have "(of_char a :: nat) = 48 + v"
    by (auto simp: is_digit_def)
  then have "char_of (of_char a :: nat) = char_of (48 + v)"
    by simp
  then show ?thesis
    by simp
qed

lemma Number2_digits:
  assumes "is_digit a" "is_digit b" "Number2 a b = 10 * int x + int y" "y < 10"
  shows "a = char_of (48 + x)" "b = char_of (48 + y)"
proof -
  define va vb where "va = (of_char a :: nat) - 48" and "vb = (of_char b :: nat) - 48"
  have lt: "va < 10" "vb < 10"
    using digit_facts(7) [OF assms(1)] digit_facts(7) [OF assms(2)] by (simp_all add: va_def vb_def)
  have "int (10 * va + vb) = 10 * int x + int y"
    using assms(3) by (simp add: Number2_def va_def vb_def)
  then have "int (10 * va + vb) = int (10 * x + y)"
    by simp
  then have eq: "10 * va + vb = 10 * x + y"
    by (simp only: of_nat_eq_iff)
  have "(10 * va + vb) div 10 = va" "(10 * va + vb) mod 10 = vb"
    "(10 * x + y) div 10 = x" "(10 * x + y) mod 10 = y"
    using lt assms(4) by simp_all
  with eq have "va = x \<and> vb = y"
    by metis
  then have "(of_char a :: nat) - 48 = x" and "(of_char b :: nat) - 48 = y"
    by (simp_all add: va_def vb_def)
  then show "a = char_of (48 + x)" "b = char_of (48 + y)"
    using digit_char [OF assms(1)] digit_char [OF assms(2)] by blast+
qed

lemma Number2_leap_day:
  assumes "is_digit a" "is_digit b" "is_digit c" "is_digit e"
    and "Number2 a b = 29" "Number2 c e = 2"
  shows "[a, b, CHR ''-'', c, e] = ''29-02''"
proof -
  have "a = char_of (48 + (2::nat))" "b = char_of (48 + (9::nat))"
    using Number2_digits [OF assms(1,2), of 2 9] assms(5) by simp_all
  moreover have "c = char_of (48 + (0::nat))" "e = char_of (48 + (2::nat))"
    using Number2_digits [OF assms(3,4), of 0 2] assms(6) by simp_all
  moreover have "char_of (50::nat) = CHR ''2''" "char_of (57::nat) = CHR ''9''"
    "char_of (48::nat) = CHR ''0''"
    by code_simp+
  ultimately show ?thesis
    by simp
qed

lemma diffDays_valid:
  assumes off: "\<And>a b. \<bar>off a - off b\<bar> < msPerDay div 2"
    and "99 < ty"
    and "parseInt (at_index (split s CHR ''-'') 1) = Some mm"
    and "parseInt (at_index (split s CHR ''-'') 0) = Some dd"
  shows "diffDays off (ty, tm, td) s =
     Some ((if MakeDay ty (mm - 1) dd < MakeDay ty (tm - 1) td
            then setFullYear (MakeDay ty (mm - 1) dd) (ty + 1) else MakeDay ty (mm - 1) dd)
           - MakeDay ty (tm - 1) td)"
proof -
  have y: "(if 0 \<le> ty \<and> ty \<le> 99 then 1900 + ty else ty) = ty"
    using assms(2) by simp
  show ?thesis
    unfolding diffDays_def assms(3,4) new_Date_def y Let_def prod.case option.case
      getTime_less [OF off] round_days_diff [OF off]
    by (simp only: if_distrib [of "\<lambda>x. x - MakeDay ty (tm - 1) td"])
qed

lemma YearFromDay_ge: "DayFromYear y \<le> j \<Longrightarrow> y \<le> YearFromDay j"
proof (rule ccontr)
  assume a: "DayFromYear y \<le> j" and "\<not> y \<le> YearFromDay j"
  then have "DayFromYear (YearFromDay j + 1) \<le> DayFromYear y"
    by (intro DayFromYear_mono) simp
  with a YearFromDay_bounds(2) [of j] show False
    by simp
qed

lemma YearFromDay_le: "j < DayFromYear (y + 1) \<Longrightarrow> YearFromDay j \<le> y"
proof (rule ccontr)
  assume a: "j < DayFromYear (y + 1)" and "\<not> YearFromDay j \<le> y"
  then have "DayFromYear (y + 1) \<le> DayFromYear (YearFromDay j)"
    by (intro DayFromYear_mono) simp
  with a YearFromDay_bounds(1) [of j] show False
    by simp
qed

lemma occurrence_in_year:
  "MonthFromDay j = m \<Longrightarrow> DateFromDay j = d \<Longrightarrow> j = MakeDay (YearFromDay j) m d"
  using MakeDay_inverse [of j] by simp

lemma next_same_year:
  assumes T: "DayFromYear ty \<le> T"
    and m: "1 \<le> mm" "mm \<le> 12" and d: "1 \<le> dd" "dd \<le> month_length (InLeapYear ty) (mm - 1)"
    and later: "T \<le> MakeDay ty (mm - 1) dd"
  shows "is_next_occurrence T mm dd (MakeDay ty (mm - 1) dd)"
proof -
  have m0: "0 \<le> mm - 1" "mm - 1 \<le> 11"
    using m by simp_all
  note rt = MonthFromDay_MakeDay [OF m0 d] DateFromDay_MakeDay [OF m0 d]
  note iy = MakeDay_in_year [OF m0 d]
  have "\<not> (MonthFromDay j = mm - 1 \<and> DateFromDay j = dd)"
    if j: "T \<le> j" "j < MakeDay ty (mm - 1) dd" for j
  proof
    assume "MonthFromDay j = mm - 1 \<and> DateFromDay j = dd"
    then have eq: "j = MakeDay (YearFromDay j) (mm - 1) dd"
      by (simp add: occurrence_in_year)
    have "ty \<le> YearFromDay j"
      using T j(1) by (intro YearFromDay_ge) simp
    moreover have "YearFromDay j \<le> ty"
      using j(2) iy(2) by (intro YearFromDay_le) simp
    ultimately have "YearFromDay j = ty"
      by simp
    with eq j(2) show False
      by simp
  qed
  with later rt show ?thesis
    by (simp add: is_next_occurrence_def)
qed

lemma next_following_year:
  assumes T: "DayFromYear ty \<le> T" "T < DayFromYear (ty + 1)"
    and m: "1 \<le> mm" "mm \<le> 12" and d: "1 \<le> dd" "dd \<le> month_length (InLeapYear ty) (mm - 1)"
    and d': "dd \<le> month_length (InLeapYear (ty + 1)) (mm - 1)"
    and passed: "MakeDay ty (mm - 1) dd < T"
  shows "is_next_occurrence T mm dd (MakeDay (ty + 1) (mm - 1) dd)"
proof -
  have m0: "0 \<le> mm - 1" "mm - 1 \<le> 11"
    using m by simp_all
  note rt = MonthFromDay_MakeDay [OF m0 d(1) d'] DateFromDay_MakeDay [OF m0 d(1) d']
  note iy = MakeDay_in_year [OF m0 d(1) d']
  have "\<not> (MonthFromDay j = mm - 1 \<and> DateFromDay j = dd)"
    if j: "T \<le> j" "j < MakeDay (ty + 1) (mm - 1) dd" for j
  proof
    assume "MonthFromDay j = mm - 1 \<and> DateFromDay j = dd"
    then have eq: "j = MakeDay (YearFromDay j) (mm - 1) dd"
      by (simp add: occurrence_in_year)
    have "ty \<le> YearFromDay j"
      using T(1) j(1) by (intro YearFromDay_ge) simp
    moreover have "YearFromDay j \<le> ty + 1"
      using j(2) iy(2) by (intro YearFromDay_le) simp
    ultimately consider "YearFromDay j = ty" | "YearFromDay j = ty + 1"
      by fastforce
    then show False
    proof cases
      case 1
      with eq passed j(1) show False by simp
    next
      case 2
      with eq j(2) show False by simp
    qed
  qed
  moreover have "T \<le> MakeDay (ty + 1) (mm - 1) dd"
    using T(2) iy(1) by simp
  ultimately show ?thesis
    using rt by (simp add: is_next_occurrence_def)
qed

lemma setFullYear_MakeDay:
  assumes "0 \<le> m" "m \<le> 11" "1 \<le> d" "d \<le> month_length (InLeapYear y) m"
  shows "setFullYear (MakeDay y m d) y' = MakeDay y' m d"
  by (simp add: setFullYear_def MonthFromDay_MakeDay [OF assms] DateFromDay_MakeDay [OF assms])

lemma month_length_any:
  assumes "dd \<le> month_length 1 m" "\<not> (dd = 29 \<and> m = 1)"
  shows "dd \<le> month_length (InLeapYear y) m"
  using assms InLeapYear_cases [of y] by (auto simp: month_length_def split: if_splits)

lemma today_in_year:
  assumes "valid_date (ty, tm, td)"
  shows "DayFromYear ty \<le> MakeDay ty (tm - 1) td" "MakeDay ty (tm - 1) td < DayFromYear (ty + 1)"
proof -
  from assms have "0 \<le> tm - 1" "tm - 1 \<le> 11" "1 \<le> td"
    "td \<le> month_length (InLeapYear ty) (tm - 1)"
    by (simp_all add: valid_date_def)
  from MakeDay_in_year [OF this]
  show "DayFromYear ty \<le> MakeDay ty (tm - 1) td" "MakeDay ty (tm - 1) td < DayFromYear (ty + 1)"
    by simp_all
qed

lemma offset_general:
  assumes today: "valid_date (ty, tm, td)" and year: "99 < ty"
    and stored: "isValidDate s"
    and off: "\<And>a b. \<bar>off a - off b\<bar> < msPerDay div 2"
  shows "\<exists>k mm dd.
           parseInt (at_index (split s CHR ''-'') 1) = Some mm \<and>
           parseInt (at_index (split s CHR ''-'') 0) = Some dd \<and>
           diffDays off (ty, tm, td) s = Some k \<and> 0 \<le> k \<and>
           (s \<noteq> ''29-02'' \<or> (InLeapYear ty = 1 \<and> MakeDay ty (tm - 1) td \<le> MakeDay ty 1 29) \<longrightarrow>
              is_next_occurrence (MakeDay ty (tm - 1) td) mm dd (MakeDay ty (tm - 1) td + k))"
proof -
  from stored obtain a b c e where s: "s = [a, b, CHR ''-'', c, e]"
    and dg: "is_digit a" "is_digit b" "is_digit c" "is_digit e"
    and m: "1 \<le> Number2 c e" "Number2 c e \<le> 12"
    and d: "1 \<le> Number2 a b" "Number2 a b \<le> month_length 1 (Number2 c e - 1)"
    by (rule isValidDate_parts)
  define mm dd where "mm = Number2 c e" and "dd = Number2 a b"
  define T B where "T = MakeDay ty (tm - 1) td" and "B = MakeDay ty (mm - 1) dd"
  note m = m [folded mm_def] and d = d [folded mm_def dd_def]
  have m0: "0 \<le> mm - 1" "mm - 1 \<le> 11"
    using m by simp_all
  have p1: "parseInt (at_index (split s CHR ''-'') 1) = Some mm"
    and p0: "parseInt (at_index (split s CHR ''-'') 0) = Some dd"
    by (simp_all add: s split_two_fields [OF dg] at_index_def parseInt_two_digits dg mm_def dd_def)
  note T = today_in_year [OF today, folded T_def]
  define k where "k = (if B < T then setFullYear B (ty + 1) else B) - T"
  have dk: "diffDays off (ty, tm, td) s = Some k"
    unfolding k_def B_def T_def by (rule diffDays_valid [OF off year p1 p0])
  have nonneg: "0 \<le> k"
  proof (cases "B < T")
    case True
    with setFullYear_ge [of "ty + 1" B] T(2) show ?thesis
      by (simp add: k_def)
  next
    case False
    then show ?thesis
      by (simp add: k_def)
  qed
  have nxt: "is_next_occurrence T mm dd (T + k)"
    if cond: "s \<noteq> ''29-02'' \<or> (InLeapYear ty = 1 \<and> T \<le> MakeDay ty 1 29)"
  proof (cases "s = ''29-02''")
    case True
    with s have "a = CHR ''2''" "b = CHR ''9''" "c = CHR ''0''" "e = CHR ''2''"
      by auto
    then have v: "dd = 29" "mm = 2"
      by (simp_all add: dd_def mm_def Number2_def)
    from True cond have leap: "InLeapYear ty = 1" and later: "T \<le> B"
      by (simp_all add: B_def v)
    have "dd \<le> month_length (InLeapYear ty) (mm - 1)"
      by (simp add: v leap month_length_def)
    from next_same_year [OF T(1) m d(1) this later [unfolded B_def]] later
    show ?thesis
      by (simp add: k_def B_def)
  next
    case False
    have "\<not> (dd = 29 \<and> mm - 1 = 1)"
    proof
      assume "dd = 29 \<and> mm - 1 = 1"
      then have "Number2 a b = 29" "Number2 c e = 2"
        by (simp_all add: dd_def mm_def)
      from Number2_leap_day [OF dg this] False s show False
        by simp
    qed
    with d(2) have len: "dd \<le> month_length (InLeapYear y) (mm - 1)" for y
      by (rule month_length_any)
    show ?thesis
    proof (cases "B < T")
      case True
      have "setFullYear B (ty + 1) = MakeDay (ty + 1) (mm - 1) dd"
        unfolding B_def by (rule setFullYear_MakeDay [OF m0 d(1) len])
      with next_following_year [OF T m d(1) len len True [unfolded B_def]] True
      show ?thesis
        by (simp add: k_def)
    next
      case False
      then have "T \<le> MakeDay ty (mm - 1) dd"
        by (simp add: B_def)
      from next_same_year [OF T(1) m d(1) len this] False
      show ?thesis
        by (simp add: k_def B_def)
    qed
  qed
  from p1 p0 dk nonneg nxt show ?thesis
    unfolding T_def by blast
qed

lemma offset_examples:
  assumes off: "\<And>a b. \<bar>off a - off b\<bar> < msPerDay div 2"
  shows "diffDays off (2024, 6, 1) ''08-06'' = Some 7"
    and "diffDays off (2024, 6, 1) ''01-06'' = Some 0"
    and "diffDays off (2024, 6, 1) ''25-12'' = Some 207"
proof -
  have y: "(99::int) < 2024"
    by simp
  have p: "parseInt (at_index (split ''08-06'' CHR ''-'') 1) = Some 6"
    "parseInt (at_index (split ''08-06'' CHR ''-'') 0) = Some 8"
    "parseInt (at_index (split ''01-06'' CHR ''-'') 1) = Some 6"
    "parseInt (at_index (split ''01-06'' CHR ''-'') 0) = Some 1"
    "parseInt (at_index (split ''25-12'' CHR ''-'') 1) = Some 12"
    "parseInt (at_index (split ''25-12'' CHR ''-'') 0) = Some 25"
    by code_simp+
  have v: "MakeDay 2024 5 1 = 19875" "MakeDay 2024 5 8 = 19882" "MakeDay 2024 11 25 = 20082"
    by code_simp+
  show "diffDays off (2024, 6, 1) ''08-06'' = Some 7"
    by (simp add: diffDays_valid [OF off y p(1,2)] v)
  show "diffDays off (2024, 6, 1) ''01-06'' = Some 0"
    by (simp add: diffDays_valid [OF off y p(3,4)] v)
  show "diffDays off (2024, 6, 1) ''25-12'' = Some 207"
    by (simp add: diffDays_valid [OF off y p(5,6)] v)
qed


text \<open>
  Claim C3, as stated, fails for the stored birthday 29-02, which \<^verbatim>\<open>isValidDate\<close> accepts: in
  a year that is not a leap year the Date constructor turns it into 1 March. On 2025-03-01
  the offset is 0, though that day is not the 29th of February.
\<close>

theorem leap_day_offset_counterexample:
  "isValidDate ''29-02'' \<and> valid_date (2025, 3, 1) \<and>
   diffDays utc (2025, 3, 1) ''29-02'' = Some 0 \<and>
   MonthFromDay (MakeDay 2025 (3 - 1) 1 + 0) = 2 \<and>
   \<not> is_next_occurrence (MakeDay 2025 (3 - 1) 1) 2 29 (MakeDay 2025 (3 - 1) 1 + 0)"
proof -
  have "isValidDate ''29-02''" by code_simp
  moreover have "valid_date (2025, 3, 1)" by code_simp
  moreover have "diffDays utc (2025, 3, 1) ''29-02'' = Some 0" by code_simp
  moreover have "MonthFromDay (MakeDay 2025 (3 - 1) 1 + 0) = 2" by code_simp
  ultimately show ?thesis
    by (simp add: is_next_occurrence_def)
qed

text \<open>
  Claim C3, amended. For every current date (from the year 100 on), every stored day-month
  that \<^verbatim>\<open>isValidDate\<close> accepts and every local time whose offset from UTC varies by less than
  half a day, the computed offset is a number and is never negative. For every stored
  day-month other than 29-02, and for 29-02 while the current year is a leap year whose 29
  February has not passed, it is the number of days from today to the next occurrence of
  that day and month (this year's, or next year's when this year's has passed). With today
  = 2024-06-01 the offset of 08-06 is 7, of 01-06 is 0 and of 25-12 is 207.
\<close>

theorem offset_is_days_to_next_occurrence:
  assumes today: "valid_date (ty, tm, td)" and year: "99 < ty"
    and stored: "isValidDate s"
    and off: "\<forall>a b. \<bar>off a - off b\<bar> < msPerDay div 2"
  shows "(\<exists>k mm dd.
           parseInt (at_index (split s CHR ''-'') 1) = Some mm \<and>
           parseInt (at_index (split s CHR ''-'') 0) = Some dd \<and>
           diffDays off (ty, tm, td) s = Some k \<and> 0 \<le> k \<and>
           (s \<noteq> ''29-02'' \<or> (InLeapYear ty = 1 \<and> MakeDay ty (tm - 1) td \<le> MakeDay ty 1 29) \<longrightarrow>
              is_next_occurrence (MakeDay ty (tm - 1) td) mm dd (MakeDay ty (tm - 1) td + k))) \<and>
         diffDays off (2024, 6, 1) ''08-06'' = Some 7 \<and>
         diffDays off (2024, 6, 1) ''01-06'' = Some 0 \<and>
         diffDays off (2024, 6, 1) ''25-12'' = Some 207"
proof -
  have steady: "\<bar>off a - off b\<bar> < msPerDay div 2" for a b
    using off by blast
  from offset_general [where off = off, OF today year stored steady]
    offset_examples [where off = off, OF steady]
  show ?thesis
    by blast
qed

theorem offset_is_days_to_next_occurrence_witness:
  "valid_date (2024, 6, 1) \<and> (99::int) < 2024 \<and> isValidDate ''08-06'' \<and>
   (\<forall>a b. \<bar>british_time a - british_time b\<bar> < msPerDay div 2) \<and>
   diffDays british_time (2024, 6, 1) ''08-06'' = Some 7 \<and>
   is_next_occurrence (MakeDay 2024 (6 - 1) 1) 6 8 (MakeDay 2024 (6 - 1) 1 + 7)"
proof -
  have h1: "valid_date (2024, 6, 1)" by code_simp
  have h2: "(99::int) < 2024" by simp
  have h3: "isValidDate ''08-06''" by code_simp
  have h4: "\<forall>a b. \<bar>british_time a - british_time b\<bar> < msPerDay div 2"
    by (simp add: british_time_def msPerDay_def)
  have steady: "\<bar>british_time a - british_time b\<bar> < msPerDay div 2" for a b
    using h4 by blast
  from offset_is_days_to_next_occurrence [OF h1 h2 h3 h4]
  obtain k mm dd where
    p1: "parseInt (at_index (split ''08-06'' CHR ''-'') 1) = Some mm" and
    p0: "parseInt (at_index (split ''08-06'' CHR ''-'') 0) = Some dd" and
    dk: "diffDays british_time (2024, 6, 1) ''08-06'' = Some k" and
    nx: "''08-06'' \<noteq> ''29-02'' \<or> (InLeapYear 2024 = 1 \<and> MakeDay 2024 (6 - 1) 1 \<le> MakeDay 2024 1 29) \<longrightarrow>
           is_next_occurrence (MakeDay 2024 (6 - 1) 1) mm dd (MakeDay 2024 (6 - 1) 1 + k)"
    by blast
  have "parseInt (at_index (split ''08-06'' CHR ''-'') 1) = Some 6"
    "parseInt (at_index (split ''08-06'' CHR ''-'') 0) = Some 8"
    by code_simp+
  with p1 p0 have v: "mm = 6" "dd = 8"
    by simp_all
  from dk have k: "k = 7"
    by (simp add: offset_examples(1) [where off = british_time, OF steady])
  from nx have "is_next_occurrence (MakeDay 2024 (6 - 1) 1) 6 8 (MakeDay 2024 (6 - 1) 1 + 7)"
    by (simp add: v k)
  with h1 h2 h3 h4 dk k show ?thesis
    by blast
qed

section \<open>Properties of the scheduler\<close>

lemma triggerBirthdayCollection_returns:
  "\<exists>w'. triggerBirthdayCollection cl now c w = (Inr (), w')"
  unfolding triggerBirthdayCollection_def by (rule io_catch_console_error)

lemma dispatch_returns:
  assumes "diffDays off date (birth_date b) \<noteq> Some 1"
  shows "fst (dispatch cl an BC AC off date now b w) = Inr ()"
proof -
  obtain w1 where "triggerBirthdayCollection cl now (user_id b)
      (snd (console_log (''Triggering collection for '' @ user_id b) w)) = (Inr (), w1)"
    using triggerBirthdayCollection_returns by blast
  moreover obtain w2 where "postBirthdayThread cl an BC (user_id b)
      (snd (console_log (''Posting thread for '' @ user_id b) w)) = (Inr (), w2)"
    using postBirthdayThread_returns by blast
  ultimately show ?thesis
    using assms by (simp add: dispatch_def io_bind_def console_log_def io_return_def)
qed

lemma dispatch_all_every_record:
  assumes "\<forall>b \<in> set bs. diffDays off date (birth_date b) \<noteq> Some 1"
  shows "dispatch_all cl an BC AC off date now bs w =
           (Inr (), every_record cl an BC AC off date now bs w)"
  using assms
proof (induction bs arbitrary: w)
  case Nil
  show ?case
    by (simp add: io_return_def every_record_def)
next
  case (Cons b bs)
  then have "fst (dispatch cl an BC AC off date now b w) = Inr ()"
    by (simp add: dispatch_returns)
  then have d: "dispatch cl an BC AC off date now b w =
      (Inr (), snd (dispatch cl an BC AC off date now b w))"
    by (simp add: prod_eq_iff)
  have "dispatch_all cl an BC AC off date now (b # bs) w =
      dispatch_all cl an BC AC off date now bs (snd (dispatch cl an BC AC off date now b w))"
    by (subst dispatch_all.simps, subst io_bind_def, subst d) simp
  also have "\<dots> = (Inr (), every_record cl an BC AC off date now bs
      (snd (dispatch cl an BC AC off date now b w)))"
    using Cons.prems by (intro Cons.IH) simp
  finally show ?case
    by (simp add: every_record_def)
qed

lemma dispatch_digest_fails:
  assumes "diffDays off date (birth_date b) = Some 1"
    and "fst (call_postMessage cl (digest AC (getBirthdayMessageCount (user_id b) (store w))) w) = Inl e"
  shows "dispatch_all cl an BC AC off date now (b # bs) w =
           (Inl e, snd (call_postMessage cl (digest AC (getBirthdayMessageCount (user_id b) (store w))) w))"
proof -
  obtain w1 where p: "call_postMessage cl (digest AC (getBirthdayMessageCount (user_id b) (store w))) w =
      (Inl e, w1)"
    using assms(2)
    by (cases "call_postMessage cl (digest AC (getBirthdayMessageCount (user_id b) (store w))) w") auto
  then have "dispatch cl an BC AC off date now b w = (Inl e, w1)"
    using assms(1) by (simp add: dispatch_def io_bind_def db_read_def)
  then show ?thesis
    by (simp add: io_bind_def p)
qed

lemma fetch_all_users_store:
  "store (snd (fetch_all_users cl attempts cursor allUsers w)) = store w"
  by (induction attempts arbitrary: cursor allUsers w)
     (auto simp: io_bind_def io_catch_def io_return_def io_throw_def console_log_def
        console_error_def call_users_list_def split: sum.splits prod.splits)

lemma run_by_name_missing:
  "run_by_name ''deleteBirthdayMessagesForUser'' uid now d =
     Inl (TypeError ''Cannot read properties of undefined (reading run)'')"
  by (simp add: run_by_name_def statements_def)

lemma cleanup_loop_store:
  "store (snd (cleanup_loop now allUsers bs n w)) = store w"
  by (induction bs arbitrary: n w)
     (auto simp: io_bind_def io_return_def db_try_def run_by_name_missing)

lemma keeps_bind:
  assumes "\<And>w. store (snd (m w)) = store w" and "\<And>a w. store (snd (f a w)) = store w"
  shows "store (snd (io_bind m f w)) = store w"
proof (cases "m w")
  case (Pair r w1)
  then have "store w1 = store w"
    using assms(1) [of w] by simp
  with Pair assms(2) show ?thesis
    by (cases r) (simp_all add: io_bind_def)
qed

lemma keeps_catch:
  assumes "\<And>w. store (snd (m w)) = store w" and "\<And>e w. store (snd (h e w)) = store w"
  shows "store (snd (io_catch m h w)) = store w"
proof (cases "m w")
  case (Pair r w1)
  then have "store w1 = store w"
    using assms(1) [of w] by simp
  with Pair assms(2) show ?thesis
    by (cases r) (simp_all add: io_catch_def)
qed

lemma keeps_simple:
  "store (snd (io_return a w)) = store w"
  "store (snd (console_log s w)) = store w"
  "store (snd (console_error s e w)) = store w"
  "store (snd (db_read q w)) = store w"
  "store (snd (call_postMessage cl p w)) = store w"
  by (simp_all add: io_return_def console_log_def console_error_def db_read_def
      call_postMessage_def split: sum.splits)

lemma cleanup_store_unchanged:
  "store (snd (cleanupDeactivatedUsers cl ch now w)) = store w"
  unfolding cleanupDeactivatedUsers_def
  by (intro keeps_catch keeps_bind keeps_simple fetch_all_users_store cleanup_loop_store)
     (simp_all add: keeps_bind keeps_simple)

text \<open>
  Claim C1 is right and the code is wrong: the three statements the cleanup runs for a
  departed member are not properties of the \<^verbatim>\<open>statements\<close> object of database.js. In the
  example the membership fetch succeeds with an empty list, so the member of the stored
  birthday is absent; the first \<^verbatim>\<open>run\<close> raises a TypeError, the \<^verbatim>\<open>catch\<close> of the cleanup logs
  it, and the tribute rows, the description row and the birthday record are all still in
  the store.
\<close>

theorem cleanup_deletes_nothing:
  "map_of statements ''deleteBirthdayMessagesForUser'' = None \<and>
   map_of statements ''deleteDescriptionMessagesForUser'' = None \<and>
   map_of statements ''deleteUser'' = None \<and>
   users_list flaky_client 0 None = Inr \<lparr>members = [], next_cursor = None\<rparr> \<and>
   fst (cleanupDeactivatedUsers flaky_client ''ADMIN'' (20, 0) example_world) = Inr () \<and>
   store (snd (cleanupDeactivatedUsers flaky_client ''ADMIN'' (20, 0) example_world)) =
     example_store \<and>
   console (snd (cleanupDeactivatedUsers flaky_client ''ADMIN'' (20, 0) example_world)) =
     [Failure ''Error cleaning up deactivated users:''
        (TypeError ''Cannot read properties of undefined (reading run)'')]"
proof -
  have "map_of statements ''deleteBirthdayMessagesForUser'' = None"
    "map_of statements ''deleteDescriptionMessagesForUser'' = None"
    "map_of statements ''deleteUser'' = None"
    by (simp_all add: statements_def)
  moreover have "users_list flaky_client 0 None = Inr \<lparr>members = [], next_cursor = None\<rparr>"
    by (simp add: flaky_client_def)
  moreover have "fst (cleanupDeactivatedUsers flaky_client ''ADMIN'' (20, 0) example_world) = Inr ()"
    by code_simp
  moreover have "store (snd (cleanupDeactivatedUsers flaky_client ''ADMIN'' (20, 0) example_world)) =
     example_store"
    by (simp add: cleanup_store_unchanged example_world_def)
  moreover have "console (snd (cleanupDeactivatedUsers flaky_client ''ADMIN'' (20, 0) example_world)) =
     [Failure ''Error cleaning up deactivated users:''
        (TypeError ''Cannot read properties of undefined (reading run)'')]"
    by code_simp
  ultimately show ?thesis
    by blast
qed

text \<open>
  Claim C2, as stated, fails for the admin digest: the loop has no \<^verbatim>\<open>try\<close> of its own. In
  the example the first record is one day ahead and the post to the admin channel raises;
  the loop ends there, the record whose birthday is today is not processed (nothing is
  logged or posted for it), and the handler around the whole run logs the error.
\<close>

theorem digest_failure_counterexample:
  "diffDays british_time (2024, 6, 1) (birth_date born_tomorrow) = Some 1 \<and>
   diffDays british_time (2024, 6, 1) (birth_date born_today) = Some 0 \<and>
   fst (dispatch_all admin_down timed_out ''C0'' ''ADMIN'' british_time (2024, 6, 1) (20, 0)
          [born_tomorrow, born_today] two_birthdays) = Inl (ApiError ''channel_not_found'') \<and>
   console (snd (dispatch_all admin_down timed_out ''C0'' ''ADMIN'' british_time (2024, 6, 1) (20, 0)
          [born_tomorrow, born_today] two_birthdays)) = [] \<and>
   posted (snd (dispatch_all admin_down timed_out ''C0'' ''ADMIN'' british_time (2024, 6, 1) (20, 0)
          [born_tomorrow, born_today] two_birthdays)) = [] \<and>
   console (snd (cron_job admin_down timed_out ''C0'' ''ADMIN'' british_time (2024, 6, 1) (20, 0)
          two_birthdays)) =
     [Failure ''Error in birthday cron job:'' (ApiError ''channel_not_found'')]"
proof -
  have "diffDays british_time (2024, 6, 1) (birth_date born_tomorrow) = Some 1"
    "diffDays british_time (2024, 6, 1) (birth_date born_today) = Some 0"
    by code_simp+
  moreover have "fst (dispatch_all admin_down timed_out ''C0'' ''ADMIN'' british_time (2024, 6, 1) (20, 0)
          [born_tomorrow, born_today] two_birthdays) = Inl (ApiError ''channel_not_found'')"
    by code_simp
  moreover have "console (snd (dispatch_all admin_down timed_out ''C0'' ''ADMIN'' british_time (2024, 6, 1) (20, 0)
          [born_tomorrow, born_today] two_birthdays)) = []"
    by code_simp
  moreover have "posted (snd (dispatch_all admin_down timed_out ''C0'' ''ADMIN'' british_time (2024, 6, 1) (20, 0)
          [born_tomorrow, born_today] two_birthdays)) = []"
    by code_simp
  moreover have "console (snd (cron_job admin_down timed_out ''C0'' ''ADMIN'' british_time (2024, 6, 1) (20, 0)
          two_birthdays)) =
     [Failure ''Error in birthday cron job:'' (ApiError ''channel_not_found'')]"
    by code_simp
  ultimately show ?thesis
    by blast
qed

text \<open>
  Claim C2, amended. An exception raised inside Collection Trigger or Thread Poster is
  caught and logged there, so for a record whose offset is not 1 the loop body returns
  normally whatever the platform does, and a list with no record at offset 1 is processed
  to its end: the loop leaves the state that running the body for every record, one after
  the other, leaves. An exception raised by the admin digest post ends the loop at that
  record, in the state the failed post left: the remaining records are not processed.
\<close>

theorem dispatch_failure_isolation:
  "(diffDays off date (birth_date b) \<noteq> Some 1 \<longrightarrow>
      fst (dispatch cl an BC AC off date now b w) = Inr ()) \<and>
   ((\<forall>r \<in> set bs. diffDays off date (birth_date r) \<noteq> Some 1) \<longrightarrow>
      dispatch_all cl an BC AC off date now bs w =
        (Inr (), every_record cl an BC AC off date now bs w)) \<and>
   (diffDays off date (birth_date b1) = Some 1 \<and>
    fst (call_postMessage cl (digest AC (getBirthdayMessageCount (user_id b1) (store w))) w) = Inl e \<longrightarrow>
      dispatch_all cl an BC AC off date now (b1 # bs1) w =
        (Inl e, snd (call_postMessage cl
           (digest AC (getBirthdayMessageCount (user_id b1) (store w))) w)))"
  using dispatch_returns [of off date b cl an BC AC now w]
    dispatch_all_every_record [of bs off date cl an BC AC now w]
    dispatch_digest_fails [of off date b1 cl AC w e an BC now bs1]
  by blast

theorem dispatch_failure_isolation_witness:
  "diffDays british_time (2024, 6, 1) (birth_date born_today) \<noteq> Some 1 \<and>
   fst (dispatch admin_down timed_out ''C0'' ''ADMIN'' british_time (2024, 6, 1) (20, 0)
          born_today two_birthdays) = Inr () \<and>
   dispatch_all admin_down timed_out ''C0'' ''ADMIN'' british_time (2024, 6, 1) (20, 0)
       [born_today, born_today] two_birthdays =
     (Inr (), every_record admin_down timed_out ''C0'' ''ADMIN'' british_time (2024, 6, 1) (20, 0)
        [born_today, born_today] two_birthdays) \<and>
   diffDays british_time (2024, 6, 1) (birth_date born_tomorrow) = Some 1 \<and>
   fst (call_postMessage admin_down
          (digest ''ADMIN'' (getBirthdayMessageCount (user_id born_tomorrow) (store two_birthdays)))
          two_birthdays) = Inl (ApiError ''channel_not_found'') \<and>
   dispatch_all admin_down timed_out ''C0'' ''ADMIN'' british_time (2024, 6, 1) (20, 0)
       [born_tomorrow, born_today] two_birthdays =
     (Inl (ApiError ''channel_not_found''),
      snd (call_postMessage admin_down
             (digest ''ADMIN'' (getBirthdayMessageCount (user_id born_tomorrow) (store two_birthdays)))
             two_birthdays))"
proof -
  have h1: "diffDays british_time (2024, 6, 1) (birth_date born_today) \<noteq> Some 1"
    by code_simp
  then have h2: "\<forall>r \<in> set [born_today, born_today].
      diffDays british_time (2024, 6, 1) (birth_date r) \<noteq> Some 1"
    by simp
  have h3: "diffDays british_time (2024, 6, 1) (birth_date born_tomorrow) = Some 1"
    by code_simp
  have h4: "fst (call_postMessage admin_down
          (digest ''ADMIN'' (getBirthdayMessageCount (user_id born_tomorrow) (store two_birthdays)))
          two_birthdays) = Inl (ApiError ''channel_not_found'')"
    by (simp add: call_postMessage_def admin_down_def digest_def)
  from dispatch_failure_isolation
    [of british_time "(2024, 6, 1)" born_today admin_down timed_out "''C0''" "''ADMIN''" "(20, 0)"
      two_birthdays "[born_today, born_today]" born_tomorrow "ApiError ''channel_not_found''"
      "[born_today]"]
    h1 h2 h3 h4
  show ?thesis
    by blast
qed

section \<open>Properties of the name resolution\<close>

lemma find_exact_match: "find P xs = exact_match (filter P xs)"
  by (induction xs) (auto simp: exact_match_def)

lemma candidates_field:
  "candidates ms field wanted =
     filter (\<lambda>m. \<not> deleted m \<and> field_is (field m) (toLowerCase (trim wanted))) ms"
  by (auto simp: candidates_def field_is_def truthy_def normalized_def COALESCE_def
      intro!: filter_cong split: option.splits)

lemma field_is_of_profile:
  "field_is (of_profile field m) target = profile_field_is field m target"
  by (simp add: of_profile_def profile_field_is_def field_is_def truthy_def split: option.splits)

lemma stage_chain:
  assumes "a = a'" "b = b'" "c = c'" "d = d'" "e = e'"
  shows "(let user = a; user = (if user = None then b else user);
              user = (if user = None then c else user);
              user = (if user = None then d else user);
              user = (if user = None then e else user)
          in user) = first_success [a', b', c', d', e']"
  unfolding assms
  by (cases a'; cases b'; cases c'; cases d'; cases e') (simp_all add: Let_def)

lemma find_in_page_spec:
  "find_in_page ms firstName lastName = spec_resolveByName ms firstName lastName"
  unfolding find_in_page_def spec_resolveByName_def
  by (subst Let_def, rule stage_chain)
     (simp_all add: find_exact_match candidates_field field_is_of_profile unique_match_def)

lemma search_pages_first_hit:
  assumes "serves cl (calls w) cursor pages" and "cursor = None \<or> truthy cursor"
  shows "fst (search_pages cl firstName lastName now n cursor w) =
           Inr (first_success (map (\<lambda>p. find_in_page p firstName lastName) (take n pages)))"
  using assms
proof (induction n arbitrary: cursor pages w)
  case 0
  show ?case
    by (simp add: io_bind_def console_log_def io_return_def)
next
  case (Suc n)
  from Suc.prems(1) obtain p ps where pages: "pages = p # ps"
    by (cases pages) auto
  from Suc.prems(2) have arg: "(if truthy cursor then cursor else None) = cursor"
    by auto
  from Suc.prems(1) pages obtain response where
    r: "users_list cl (calls w) cursor = Inr response" and m: "members response = p"
    and nxt: "if ps = [] then \<not> truthy (next_cursor response)
              else truthy (next_cursor response) \<and> serves cl (Suc (calls w)) (next_cursor response) ps"
    by (auto split: sum.splits)
  let ?w1 = "w\<lparr>calls := Suc (calls w)\<rparr>"
  have fetch: "io_catch (call_users_list cl (if truthy cursor then cursor else None))
          (\<lambda>e. io_bind (console_error ''Error searching for user:'' e) (\<lambda>_. io_throw e)) w =
        (Inr response, ?w1)"
    by (simp add: arg io_catch_def call_users_list_def r)
  show ?case
  proof (cases "find_in_page p firstName lastName")
    case (Some user)
    then show ?thesis
      by (simp add: pages io_bind_def fetch m console_log_def cache_set_def io_return_def)
  next
    case None
    show ?thesis
    proof (cases "ps = []")
      case True
      with nxt None show ?thesis
        by (simp add: pages io_bind_def fetch m io_return_def)
    next
      case False
      with nxt have t: "truthy (next_cursor response)"
        and s: "serves cl (calls ?w1) (next_cursor response) ps"
        by simp_all
      from Suc.IH [OF s] t
      have "fst (search_pages cl firstName lastName now n (next_cursor response) ?w1) =
          Inr (first_success (map (\<lambda>p. find_in_page p firstName lastName) (take n ps)))"
        by simp
      with None t show ?thesis
        by (simp add: pages io_bind_def fetch m)
    qed
  qed
qed

lemma findUserByName_search:
  assumes "fresh_entry w (cacheKey firstName lastName) now = None"
  shows "fst (findUserByName cl firstName lastName now w) =
           fst (search_pages cl firstName lastName now 10 None
                  (w\<lparr>console := console w @ [Log (''Searching for user: '' @ firstName @ '' '' @ lastName)]\<rparr>))"
proof -
  let ?w0 = "w\<lparr>console := console w @ [Log (''Searching for user: '' @ firstName @ '' '' @ lastName)]\<rparr>"
  have "fresh_entry ?w0 (cacheKey firstName lastName) now = None"
    using assms by (simp add: fresh_entry_def)
  then show ?thesis
    by (cases "search_pages cl firstName lastName now 10 None ?w0")
       (auto simp: findUserByName_def io_bind_def console_log_def io_return_def cache_set_def
          split: sum.splits)
qed

text \<open>A fresh negative entry of the cache does not give ``not found'': the line that logs the
  cached user raises.\<close>

lemma fresh_negative_entry_raises:
  assumes "fresh_entry w (cacheKey firstName lastName) now = Some None"
  shows "fst (findUserByName cl firstName lastName now w) =
           Inl (TypeError ''Cannot read properties of null (reading real_name)'')"
proof -
  let ?w0 = "w\<lparr>console := console w @
      [Log (''Searching for user: '' @ firstName @ '' '' @ lastName)]\<rparr>"
  have "fresh_entry ?w0 (cacheKey firstName lastName) now = Some None"
    using assms by (simp add: fresh_entry_def)
  then show ?thesis
    by (simp add: findUserByName_def io_bind_def console_log_def io_throw_def)
qed

text \<open>
  Claim C9, as stated, fails when the member list comes in more than one page: the five
  stages are tried on each page by itself and the first page with a hit wins. In the
  example Jane Smith is alone on the first page and Jane Doe on the second; resolving
  (Jane, Doe) returns Jane Smith, by the first-name stage on the first page, though Jane Doe
  matches the full name exactly, which is what the priority order over the member list
  gives.
\<close>

theorem resolve_two_pages_counterexample:
  "serves two_pages 0 None [[jane_smith], [jane_doe]] \<and>
   fst (findUserByName two_pages ''Jane'' ''Doe'' 0 example_world) = Inr (Some jane_smith) \<and>
   spec_resolveByName [jane_smith, jane_doe] ''Jane'' ''Doe'' = Some jane_doe \<and>
   jane_smith \<noteq> jane_doe"
proof -
  have "serves two_pages 0 None [[jane_smith], [jane_doe]]"
    by (simp add: two_pages_def truthy_def)
  moreover have "fst (findUserByName two_pages ''Jane'' ''Doe'' 0 example_world) =
      Inr (Some jane_smith)"
    by code_simp
  moreover have "spec_resolveByName [jane_smith, jane_doe] ''Jane'' ''Doe'' = Some jane_doe"
    by code_simp
  moreover have "jane_smith \<noteq> jane_doe"
    by (simp add: jane_smith_def jane_doe_def)
  ultimately show ?thesis
    by blast
qed

text \<open>
  Claim C9, amended. When the cache holds no fresh entry for the name pair and the platform
  serves the member list in pages, \<^verbatim>\<open>resolveByName\<close> looks at the first ten pages at most,
  one after the other, and on each page performs the case-insensitive, trimmed match in
  the priority order of the claim: full display name, normalized real name, normalized
  nickname (each with its first match), first name only and last name only (each when
  exactly one member of the page matches). It returns the hit of the first page that has
  one and ``not found'' when no page looked at has one. For a member list served in a single
  page this is the priority order over the whole list.
\<close>

theorem resolve_page_by_page:
  assumes "fresh_entry w (cacheKey firstName lastName) now = None"
    and "serves cl (calls w) None pages"
  shows "fst (findUserByName cl firstName lastName now w) =
           Inr (first_success
                  (map (\<lambda>page. spec_resolveByName page firstName lastName) (take 10 pages))) \<and>
         (pages = [ms] \<longrightarrow>
            fst (findUserByName cl firstName lastName now w) =
              Inr (spec_resolveByName ms firstName lastName))"
proof -
  let ?w0 = "w\<lparr>console := console w @
      [Log (''Searching for user: '' @ firstName @ '' '' @ lastName)]\<rparr>"
  have "serves cl (calls ?w0) None pages"
    using assms(2) by simp
  from search_pages_first_hit [OF this, of firstName lastName now 10]
  have "fst (findUserByName cl firstName lastName now w) =
      Inr (first_success (map (\<lambda>page. find_in_page page firstName lastName) (take 10 pages)))"
    by (simp add: findUserByName_search [OF assms(1)])
  then have all: "fst (findUserByName cl firstName lastName now w) =
      Inr (first_success
             (map (\<lambda>page. spec_resolveByName page firstName lastName) (take 10 pages)))"
    by (simp add: find_in_page_spec)
  have "first_success [r] = r" for r :: "member option"
    by (cases r) simp_all
  with all show ?thesis
    by simp
qed

theorem resolve_page_by_page_witness:
  "fresh_entry example_world (cacheKey ''Jane'' ''Doe'') 0 = None \<and>
   serves two_pages (calls example_world) None [[jane_smith], [jane_doe]] \<and>
   fst (findUserByName two_pages ''Jane'' ''Doe'' 0 example_world) =
     Inr (first_success
            (map (\<lambda>page. spec_resolveByName page ''Jane'' ''Doe'')
               (take 10 [[jane_smith], [jane_doe]]))) \<and>
   spec_resolveByName [jane_smith] ''Jane'' ''Doe'' = Some jane_smith"
proof -
  have h1: "fresh_entry example_world (cacheKey ''Jane'' ''Doe'') 0 = None"
    by (simp add: fresh_entry_def example_world_def)
  have h2: "serves two_pages (calls example_world) None [[jane_smith], [jane_doe]]"
    by (simp add: two_pages_def truthy_def example_world_def)
  have "spec_resolveByName [jane_smith] ''Jane'' ''Doe'' = Some jane_smith"
    by code_simp
  with resolve_page_by_page [OF h1 h2] h1 h2 show ?thesis
    by blast
qed

end
